theory Spec2Isabelle
  imports Main "HOL-Library.AList"
begin

section \<open>JavaScript values\<close>

text \<open>
  The values the service and the mapper handle. Numbers are IEEE doubles in the source; the
  model leaves their carrier \<open>'n\<close> open and takes what the runtime does with them
  (rendering, truthiness) as parameters, so that nothing proved below depends on floating
  point. Strings are lists of characters; a non-ASCII literal of the source is written as
  the bytes of its UTF-8 encoding. An object is the list of its own enumerable properties in
  the order \<open>Object.keys\<close> reports them. What a value has besides its own enumerable
  properties (the members it inherits from its prototype, the \<open>length\<close> of an array or
  a text) and how a text divides into the UTF-16 units it is indexed by are the runtime's,
  and are parameters of the model as well.
\<close>

datatype 'n jsval =
    Undefined
  | Null
  | Bool bool
  | Num 'n
  | Str string
  | Arr "'n jsval list"
  | Obj "(string \<times> 'n jsval) list"

subsection \<open>Rendering an array index or a counter\<close>

definition digit_char :: "nat \<Rightarrow> char" where
  "digit_char d = ''0123456789'' ! d"

function show_nat :: "nat \<Rightarrow> string" where
  "show_nat n =
     (if n < 10 then [digit_char n] else show_nat (n div 10) @ [digit_char (n mod 10)])"
  by pat_completeness auto
termination
  by (relation "measure id") auto

declare show_nat.simps [simp del]

section \<open>Reading: \<open>sheetValuesToObjects\<close> (App.jsx)\<close>

text \<open>
  The grid is what \<open>fetchSheetData\<close> hands over: rows of cell texts, the first row
  the header. A produced record maps column names to cell texts; \<open>obj[key] = v\<close>
  replaces the value of a key already present and appends a new key otherwise. (The
  runtime enumerates keys that are array indices before the others; the properties below
  are about the fields and their values, not about their order.)
\<close>

type_synonym row_obj = "(string \<times> string) list"

text \<open>\<open>row[i] ?? ""\<close>: a cell beyond the end of the row reads as the empty text.\<close>

definition cell_at :: "string list \<Rightarrow> nat \<Rightarrow> string" where
  "cell_at row i = (if i < length row then row ! i else '''')"

text \<open>
  \<open>obj[key] = v\<close> on an object literal, for a text \<open>v\<close>. The key \<open>__proto__\<close>
  names the prototype accessor of the object, whose setter ignores a text: the assignment
  creates no field. Every other key becomes (or stays) a field of the object.
\<close>

fun assign :: "row_obj \<Rightarrow> string \<Rightarrow> string \<Rightarrow> row_obj" where
  "assign obj key v = (if key = ''__proto__'' then obj else AList.update key v obj)"

text \<open>
  \<open>header.forEach((key, i) => { if (!key) return; obj[key] = row[i] ?? ""; })\<close>,
  with \<open>i\<close> the index of \<open>key\<close> in the header.
\<close>

fun header_forEach :: "string list \<Rightarrow> nat \<Rightarrow> string list \<Rightarrow> row_obj \<Rightarrow> row_obj" where
  "header_forEach [] i row obj = obj"
| "header_forEach (key # keys) i row obj =
     header_forEach keys (Suc i) row
       (if key = '''' then obj else assign obj key (cell_at row i))"

text \<open>\<open>!obj.id\<close>: the property is absent or holds the empty text.\<close>

definition lacks_id :: "row_obj \<Rightarrow> bool" where
  "lacks_id obj = (case map_of obj ''id'' of None \<Rightarrow> True | Some v \<Rightarrow> v = '''')"

definition synthesized_id :: "string \<Rightarrow> nat \<Rightarrow> string" where
  "synthesized_id sheetName idx = sheetName @ ''-'' @ show_nat (idx + 1)"

definition row_to_object :: "string list \<Rightarrow> string \<Rightarrow> nat \<Rightarrow> string list \<Rightarrow> row_obj" where
  "row_to_object header sheetName idx row =
     (let obj = header_forEach header 0 row []
      in if lacks_id obj then AList.update ''id'' (synthesized_id sheetName idx) obj else obj)"

text \<open>
  \<open>values\<close> is \<open>None\<close> for \<open>null\<close>/\<open>undefined\<close>; \<open>!values.length\<close> is the
  empty grid.
\<close>

definition sheetValuesToObjects :: "string list list option \<Rightarrow> string \<Rightarrow> row_obj list" where
  "sheetValuesToObjects values sheetName =
     (case values of
        None \<Rightarrow> []
      | Some [] \<Rightarrow> []
      | Some (header # rows) \<Rightarrow>
          map (\<lambda>(idx, row). row_to_object header sheetName idx row) (enumerate 0 rows))"

text \<open>The identifier a produced record carries.\<close>

definition id_of :: "row_obj \<Rightarrow> string option" where
  "id_of obj = map_of obj ''id''"

section \<open>The runtime, the configuration and the remote services\<close>

text \<open>
  What the language runtime computes and the source only calls: the rendering and the
  truthiness of numbers, \<open>String(v)\<close> of arrays and objects, \<open>JSON.stringify\<close>
  (\<open>None\<close> when it throws), the parsing of a date text (\<open>None\<close> for an invalid
  date), the rendering of an instant (milliseconds since the epoch) by
  \<open>toISOString\<close>, and \<open>btoa\<close> on the text built from a list of bytes. Two more
  parameters say what a property access finds beyond the own enumerable properties of a
  value, and how a text is indexed: \<open>builtinMember v key\<close> is \<open>v[key]\<close> for a
  \<open>key\<close> that is not an own enumerable property of \<open>v\<close> (a member inherited from the
  prototype, the \<open>length\<close> of an array or a text, \<open>undefined\<close> when there is none),
  and \<open>stringUnits s\<close> lists the one-unit texts \<open>s[0]\<close>, \<open>s[1]\<close>, ... of the
  UTF-16 code units of \<open>s\<close>.
\<close>

text \<open>
  What a property access finds: a value of the model, or a function (the members a
  prototype provides are mostly methods), of which only the text \<open>String\<close> gives matters
  here.
\<close>

datatype 'n member = Data "'n jsval" | Function string

record 'n runtime =
  numberToString :: "'n \<Rightarrow> string"
  numberIsFalsy :: "'n \<Rightarrow> bool"
  objectToString :: "'n jsval \<Rightarrow> string"
  JSON_stringify :: "'n jsval \<Rightarrow> string option"
  Date_parse :: "string \<Rightarrow> int option"
  Date_toISOString :: "int \<Rightarrow> string"
  btoa :: "nat list \<Rightarrow> string"
  builtinMember :: "'n jsval \<Rightarrow> string \<Rightarrow> 'n member"
  stringUnits :: "string \<Rightarrow> string list"

definition truthy :: "'n runtime \<Rightarrow> 'n jsval \<Rightarrow> bool" where
  "truthy rt v =
     (case v of
        Undefined \<Rightarrow> False
      | Null \<Rightarrow> False
      | Bool b \<Rightarrow> b
      | Num n \<Rightarrow> \<not> numberIsFalsy rt n
      | Str s \<Rightarrow> s \<noteq> ''''
      | Arr _ \<Rightarrow> True
      | Obj _ \<Rightarrow> True)"

text \<open>\<open>String(v)\<close>, which is also what a template literal does to \<open>v\<close>.\<close>

definition js_String :: "'n runtime \<Rightarrow> 'n jsval \<Rightarrow> string" where
  "js_String rt v =
     (case v of
        Undefined \<Rightarrow> ''undefined''
      | Null \<Rightarrow> ''null''
      | Bool b \<Rightarrow> (if b then ''true'' else ''false'')
      | Num n \<Rightarrow> numberToString rt n
      | Str s \<Rightarrow> s
      | Arr _ \<Rightarrow> objectToString rt v
      | Obj _ \<Rightarrow> objectToString rt v)"

text \<open>
  A thrown value: an error object with its name and message (\<open>new Error(msg)\<close> is
  \<open>Exception ''Error'' msg\<close>), or any other value a promise was rejected with.
\<close>

datatype 'n thrown = Exception string string | Rejection "'n jsval"

definition JsError :: "string \<Rightarrow> 'n thrown" where
  "JsError msg = Exception ''Error'' msg"

definition TypeError :: "'n thrown" where
  "TypeError = Exception ''TypeError'' ''Cannot read properties of undefined''"

definition RangeError :: "'n thrown" where
  "RangeError = Exception ''RangeError'' ''Invalid time value''"

text \<open>
  \<open>v[key]\<close> on own properties: of an object, of an array (its indices) and of a text
  (its indices); \<open>undefined\<close> everywhere else. \<open>v?.[key]\<close> is the same, with
  \<open>undefined\<close> for \<open>null\<close> and \<open>undefined\<close>, where \<open>v.key\<close> throws. This is
  the access by a name written in the source (\<open>title\<close>, \<open>date\<close>, \<open>result\<close>,
  \<open>code\<close>, ..., \<open>files[0]\<close>), none of which names a member a value inherits; the
  access by an arbitrary key is \<open>optional_member\<close> below.
\<close>

definition get_prop :: "'n jsval \<Rightarrow> string \<Rightarrow> 'n jsval" where
  "get_prop v key =
     (case v of
        Obj kvs \<Rightarrow> (case map_of kvs key of Some x \<Rightarrow> x | None \<Rightarrow> Undefined)
      | Arr xs \<Rightarrow>
          (case find (\<lambda>i. show_nat i = key) [0..<length xs] of
             Some i \<Rightarrow> xs ! i | None \<Rightarrow> Undefined)
      | Str s \<Rightarrow>
          (case find (\<lambda>i. show_nat i = key) [0..<length s] of
             Some i \<Rightarrow> Str [s ! i] | None \<Rightarrow> Undefined)
      | _ \<Rightarrow> Undefined)"

definition prop_of :: "'n jsval \<Rightarrow> string \<Rightarrow> 'n thrown + 'n jsval" where
  "prop_of v key =
     (case v of
        Undefined \<Rightarrow> Inl TypeError
      | Null \<Rightarrow> Inl TypeError
      | _ \<Rightarrow> Inr (get_prop v key))"

text \<open>
  \<open>Object.keys(v)\<close> for a value that is neither \<open>null\<close> nor \<open>undefined\<close>: the
  keys of an object, the indices of an array, the indices of the UTF-16 units of a text,
  nothing for a number or a boolean.
\<close>

definition Object_keys :: "'n runtime \<Rightarrow> 'n jsval \<Rightarrow> string list" where
  "Object_keys rt v =
     (case v of
        Obj kvs \<Rightarrow> map fst kvs
      | Arr xs \<Rightarrow> map show_nat [0..<length xs]
      | Str s \<Rightarrow> map show_nat [0..<length (stringUnits rt s)]
      | _ \<Rightarrow> [])"

text \<open>The own enumerable property of \<open>v\<close> under \<open>key\<close>, if there is one.\<close>

definition own_member :: "'n runtime \<Rightarrow> 'n jsval \<Rightarrow> string \<Rightarrow> 'n jsval option" where
  "own_member rt v key =
     (case v of
        Obj kvs \<Rightarrow> map_of kvs key
      | Arr xs \<Rightarrow> map_option (\<lambda>i. xs ! i) (find (\<lambda>i. show_nat i = key) [0..<length xs])
      | Str s \<Rightarrow>
          map_option (\<lambda>i. Str (stringUnits rt s ! i))
            (find (\<lambda>i. show_nat i = key) [0..<length (stringUnits rt s)])
      | _ \<Rightarrow> None)"

text \<open>
  \<open>v?.[key]\<close> for an arbitrary key: \<open>undefined\<close> for \<open>null\<close> and \<open>undefined\<close>,
  the own property when there is one, what the runtime finds otherwise.
\<close>

definition optional_member :: "'n runtime \<Rightarrow> 'n jsval \<Rightarrow> string \<Rightarrow> 'n member" where
  "optional_member rt v key =
     (case v of
        Undefined \<Rightarrow> Data Undefined
      | Null \<Rightarrow> Data Undefined
      | _ \<Rightarrow> (case own_member rt v key of Some x \<Rightarrow> Data x | None \<Rightarrow> builtinMember rt v key))"

text \<open>\<open>Array.from(new Set(xs))\<close>: the first occurrence of each element, in order.\<close>

definition Set_from :: "'a list \<Rightarrow> 'a list" where
  "Set_from xs = foldl (\<lambda>acc x. if x \<in> set acc then acc else acc @ [x]) [] xs"

subsection \<open>Requests that leave the page\<close>

text \<open>
  Every call the service makes to something outside itself, with the arguments the source
  passes: the script tag appended to the document, the calls into the Google API client
  and Google Identity Services. \<open>console.log\<close> is not recorded.
\<close>

record 'n calendar_resource =
  summary :: "'n jsval"
  description :: string
  start_dateTime :: string
  start_timeZone :: string
  end_dateTime :: string
  end_timeZone :: string

datatype 'n request =
    LoadScript string
  | GapiLoad string
  | ClientInit "string option" "string list"
  | InitTokenClient "string option" string
  | SheetsClear "string option" string
  | SheetsUpdate "string option" string string "string list list"
  | CalendarInsert string "'n calendar_resource"
  | DriveFilesList string string string
  | DriveFilesCreate "'n jsval" string
  | GapiRequest string string "(string \<times> string) list" "(string \<times> string) list" string

text \<open>
  The module constants read from the environment at build time (\<open>None\<close>: not defined),
  the clock, and the answer of the outside world to a request, which may depend on
  everything requested before: \<open>Inl\<close> is a rejection (or, for a synchronous call, a
  throw), \<open>Inr\<close> the value the call resolves with.
\<close>

record 'n world =
  runtime :: "'n runtime"
  CLIENT_ID :: "string option"
  API_KEY :: "string option"
  SPREADSHEET_ID :: "string option"
  DRIVE_ROOT_FOLDER_ID :: "string option"
  Date_now :: nat
  respond :: "'n request list \<Rightarrow> 'n request \<Rightarrow> 'n thrown + 'n jsval"

text \<open>\<open>!c\<close> for a constant of the configuration: not defined, or the empty text.\<close>

definition unset :: "string option \<Rightarrow> bool" where
  "unset c = (case c of None \<Rightarrow> True | Some s \<Rightarrow> s = '''')"

text \<open>
  The module state (\<open>let gapiInited = false\<close> and the following lines of the service),
  whether the two external scripts have defined their globals, and the requests issued so
  far, oldest first.
\<close>

record 'n state =
  gapiInited :: bool
  gisInited :: bool
  tokenClient :: "'n jsval"
  accessToken :: "'n jsval"
  window_gapi :: bool
  window_gis :: bool
  trace :: "'n request list"

type_synonym ('n, 'a) async = "'n state \<Rightarrow> ('n thrown + 'a) \<times> 'n state"

text \<open>\<open>const x = await m; k(x)\<close>: a rejection of \<open>m\<close> leaves the function.\<close>

definition await :: "('n, 'a) async \<Rightarrow> ('a \<Rightarrow> ('n, 'b) async) \<Rightarrow> ('n, 'b) async" where
  "await m k st = (case m st of (Inl e, st') \<Rightarrow> (Inl e, st') | (Inr x, st') \<Rightarrow> k x st')"

definition return :: "'a \<Rightarrow> ('n, 'a) async" where
  "return x st = (Inr x, st)"

definition throw :: "'n thrown \<Rightarrow> ('n, 'a) async" where
  "throw e st = (Inl e, st)"

definition remote :: "'n world \<Rightarrow> 'n request \<Rightarrow> ('n, 'n jsval) async" where
  "remote w req st = (respond w (trace st) req, st\<lparr>trace := trace st @ [req]\<rparr>)"

section \<open>The service (src/services/googleService.js)\<close>

definition SCOPES :: string where
  "SCOPES = ''openid email profile https://www.googleapis.com/auth/drive.file https://www.googleapis.com/auth/spreadsheets https://www.googleapis.com/auth/calendar''"

definition DISCOVERY_DOCS :: "string list" where
  "DISCOVERY_DOCS =
     [''https://sheets.googleapis.com/$discovery/rest?version=v4'',
      ''https://www.googleapis.com/discovery/v1/apis/calendar/v3/rest'',
      ''https://www.googleapis.com/discovery/v1/apis/drive/v3/rest'']"

subsection \<open>Loading the scripts and initialising the clients\<close>

text \<open>
  \<open>loadGapiScript\<close>: nothing to do when \<open>window.gapi\<close> exists; otherwise a script tag
  is appended, and the promise settles with the tag's \<open>onload\<close> or \<open>onerror\<close>. The
  loaded script is what defines \<open>window.gapi\<close>.
\<close>

definition loadGapiScript :: "'n world \<Rightarrow> ('n, unit) async" where
  "loadGapiScript w st =
     (if window_gapi st then return () st
      else await (remote w (LoadScript ''https://apis.google.com/js/api.js''))
             (\<lambda>_ st'. return () (st'\<lparr>window_gapi := True\<rparr>)) st)"

definition loadGisScript :: "'n world \<Rightarrow> ('n, unit) async" where
  "loadGisScript w st =
     (if window_gis st then return () st
      else await (remote w (LoadScript ''https://accounts.google.com/gsi/client''))
             (\<lambda>_ st'. return () (st'\<lparr>window_gis := True\<rparr>)) st)"

definition ensureGapiClient :: "'n world \<Rightarrow> ('n, unit) async" where
  "ensureGapiClient w st =
     (if gapiInited st then return () st
      else if unset (CLIENT_ID w) \<or> unset (API_KEY w)
      then throw (JsError ''Missing CLIENT_ID or API_KEY'') st
      else await (loadGapiScript w) (\<lambda>_.
           await (remote w (GapiLoad ''client'')) (\<lambda>_.
           await (remote w (ClientInit (API_KEY w) DISCOVERY_DOCS)) (\<lambda>_ st'.
           return () (st'\<lparr>gapiInited := True\<rparr>)))) st)"

definition ensureGisClient :: "'n world \<Rightarrow> ('n, unit) async" where
  "ensureGisClient w st =
     (if gisInited st \<and> truthy (runtime w) (tokenClient st) then return () st
      else await (loadGisScript w) (\<lambda>_.
           if unset (CLIENT_ID w) then throw (JsError ''Missing CLIENT_ID for GIS'')
           else await (remote w (InitTokenClient (CLIENT_ID w) SCOPES)) (\<lambda>tc st'.
                return () (st'\<lparr>tokenClient := tc, gisInited := True\<rparr>))) st)"

text \<open>
  \<open>initClient\<close>: both initialisations inside \<open>try\<close>; the \<open>catch\<close> block returns
  \<open>false\<close>.
\<close>

definition initClient :: "'n world \<Rightarrow> ('n, bool) async" where
  "initClient w st =
     (case await (ensureGapiClient w) (\<lambda>_.
           await (ensureGisClient w) (\<lambda>_ st'.
           return (truthy (runtime w) (accessToken st')) st')) st of
        (Inl err, st') \<Rightarrow> return False st'
      | (Inr signedIn, st') \<Rightarrow> return signedIn st')"

subsection \<open>Sheets: \<open>syncToSheet\<close>\<close>

text \<open>\<open>item || {}\<close>\<close>

definition or_empty_object :: "'n runtime \<Rightarrow> 'n jsval \<Rightarrow> 'n jsval" where
  "or_empty_object rt item = (if truthy rt item then item else Obj [])"

definition allKeys :: "'n runtime \<Rightarrow> 'n jsval list \<Rightarrow> string list" where
  "allKeys rt values =
     Set_from (concat (map (\<lambda>item. Object_keys rt (or_empty_object rt item)) values))"

text \<open>
  The text a value \<open>v\<close> is written as: empty for \<open>null\<close> and \<open>undefined\<close>, the JSON
  text for an array or an object (its \<open>String\<close> when \<open>JSON.stringify\<close> throws), the
  \<open>String\<close> of any other value.
\<close>

definition value_text :: "'n runtime \<Rightarrow> 'n jsval \<Rightarrow> string" where
  "value_text rt v =
     (case v of
        Null \<Rightarrow> ''''
      | Undefined \<Rightarrow> ''''
      | Arr _ \<Rightarrow> (case JSON_stringify rt v of Some s \<Rightarrow> s | None \<Rightarrow> js_String rt v)
      | Obj _ \<Rightarrow> (case JSON_stringify rt v of Some s \<Rightarrow> s | None \<Rightarrow> js_String rt v)
      | _ \<Rightarrow> js_String rt v)"

text \<open>
  The text written into the cell of \<open>item\<close> under \<open>key\<close>, with
  \<open>v = item?.[key]\<close>. A function is neither \<open>null\<close>, \<open>undefined\<close>, an array nor of
  type \<open>"object"\<close>: it is written as its \<open>String\<close>.
\<close>

definition cell_text :: "'n runtime \<Rightarrow> 'n jsval \<Rightarrow> string \<Rightarrow> string" where
  "cell_text rt item key =
     (case optional_member rt item key of
        Data v \<Rightarrow> value_text rt v
      | Function txt \<Rightarrow> txt)"

definition sheet_rows :: "'n runtime \<Rightarrow> 'n jsval list \<Rightarrow> string list list" where
  "sheet_rows rt values =
     (let keys = allKeys rt values
      in keys # map (\<lambda>item. map (\<lambda>key. cell_text rt item key) keys) values)"

definition success_result :: "'n jsval" where
  "success_result = Obj [(''success'', Bool True)]"

definition syncToSheet :: "'n world \<Rightarrow> string \<Rightarrow> 'n jsval \<Rightarrow> ('n, 'n jsval) async" where
  "syncToSheet w sheetName dataArray =
     await (ensureGapiClient w) (\<lambda>_.
       let values = (case dataArray of Arr xs \<Rightarrow> xs | _ \<Rightarrow> [])
       in if length values = 0
          then await (remote w (SheetsClear (SPREADSHEET_ID w) (sheetName @ ''!A:Z''))) (\<lambda>_.
               return success_result)
          else let rows = sheet_rows (runtime w) values
               in await (remote w (SheetsClear (SPREADSHEET_ID w) (sheetName @ ''!A:Z''))) (\<lambda>_.
                  await (remote w (SheetsUpdate (SPREADSHEET_ID w) (sheetName @ ''!A1'') ''RAW'' rows))
                    (\<lambda>res st. (prop_of res ''result'', st))))"

text \<open>
  The grid a sequence of requests leaves written for the sheet \<open>sheetName\<close>: the rows
  of the last update at A1, nothing after a clear of the range A:Z. It is the grid the
  reader is given back. (What the spreadsheet service itself does with the written rows,
  such as dropping empty cells at the end of a row, and columns beyond Z, which neither the
  clear nor the range read by \<open>fetchSheetData\<close> covers, are not part of it.)
\<close>

fun written_grid :: "string \<Rightarrow> string list list \<Rightarrow> 'n request list \<Rightarrow> string list list" where
  "written_grid sheetName grid [] = grid"
| "written_grid sheetName grid (SheetsClear sid rng # reqs) =
     written_grid sheetName (if rng = sheetName @ ''!A:Z'' then [] else grid) reqs"
| "written_grid sheetName grid (SheetsUpdate sid rng opt rows # reqs) =
     written_grid sheetName (if rng = sheetName @ ''!A1'' then rows else grid) reqs"
| "written_grid sheetName grid (req # reqs) = written_grid sheetName grid reqs"

subsection \<open>Calendar: \<open>addToCalendar\<close>\<close>

text \<open>
  A \<open>Date\<close> is its time value in milliseconds since the epoch, \<open>None\<close> for an
  invalid date; a time value beyond the range of \<open>Date\<close> gives an invalid date, and
  \<open>toISOString\<close> of an invalid date throws.
\<close>

type_synonym date = "int option"

definition TimeClip :: "int \<Rightarrow> date" where
  "TimeClip t = (if \<bar>t\<bar> \<le> 8640000000000000 then Some t else None)"

definition new_Date_text :: "'n runtime \<Rightarrow> string \<Rightarrow> date" where
  "new_Date_text rt s = (case Date_parse rt s of None \<Rightarrow> None | Some t \<Rightarrow> TimeClip t)"

definition new_Date_ms :: "int option \<Rightarrow> date" where
  "new_Date_ms ms = (case ms of None \<Rightarrow> None | Some t \<Rightarrow> TimeClip t)"

definition getTime :: "date \<Rightarrow> int option" where
  "getTime d = d"

definition toISOString :: "'n runtime \<Rightarrow> date \<Rightarrow> 'n thrown + string" where
  "toISOString rt d = (case d of None \<Rightarrow> Inl RangeError | Some t \<Rightarrow> Inr (Date_toISOString rt t))"

definition lift :: "'n thrown + 'a \<Rightarrow> ('n, 'a) async" where
  "lift r st = (r, st)"

definition validation_message :: string where
  "validation_message =
     ''Event title '' @ [CHR 0xE5, CHR 0x92, CHR 0x8C] @ '' date '' @
     [CHR 0xE7, CHR 0x82, CHR 0xBA, CHR 0xE5, CHR 0xBF, CHR 0x85, CHR 0xE5, CHR 0xA1, CHR 0xAB]"

definition event_description :: "'n runtime \<Rightarrow> 'n jsval \<Rightarrow> string" where
  "event_description rt event =
     (if truthy rt (get_prop event ''type'')
      then [CHR 0xE9, CHR 0xA1, CHR 0x9E, CHR 0xE5, CHR 0x9E, CHR 0x8B, CHR 0xEF, CHR 0xBC, CHR 0x9A]
           @ js_String rt (get_prop event ''type'')
           @ (if truthy rt (get_prop event ''relatedId'')
              then [CHR 0x0A, CHR 0xE9, CHR 0x97, CHR 0x9C, CHR 0xE8, CHR 0x81, CHR 0xAF] @ ''ID''
                   @ [CHR 0xEF, CHR 0xBC, CHR 0x9A] @ js_String rt (get_prop event ''relatedId'')
              else '''')
      else '''')"

text \<open>\<open>new Date(`${date} ${time || "10:00"}`)\<close>\<close>

definition event_start :: "'n runtime \<Rightarrow> 'n jsval \<Rightarrow> 'n jsval \<Rightarrow> date" where
  "event_start rt date time =
     new_Date_text rt
       (js_String rt date @ '' '' @ js_String rt (if truthy rt time then time else Str ''10:00''))"

definition addToCalendar :: "'n world \<Rightarrow> 'n jsval \<Rightarrow> ('n, 'n jsval) async" where
  "addToCalendar w event =
     await (ensureGapiClient w) (\<lambda>_.
     await (lift (prop_of event ''title'')) (\<lambda>title.
       let rt = runtime w;
           date = get_prop event ''date'';
           time = get_prop event ''time''
       in if \<not> truthy rt title \<or> \<not> truthy rt date then throw (JsError validation_message)
          else let startDate = event_start rt date time;
                   endDate = new_Date_ms (map_option (\<lambda>t. t + 60 * 60 * 1000) (getTime startDate))
               in await (lift (toISOString rt startDate)) (\<lambda>startText.
                  await (lift (toISOString rt endDate)) (\<lambda>endText.
                  await (remote w (CalendarInsert ''primary''
                           \<lparr> summary = title,
                             description = event_description rt event,
                             start_dateTime = startText,
                             start_timeZone = ''Asia/Taipei'',
                             end_dateTime = endText,
                             end_timeZone = ''Asia/Taipei'' \<rparr>)) (\<lambda>res.
                  lift (prop_of res ''result''))))))"

subsection \<open>Drive: \<open>uploadToDrive\<close>\<close>

text \<open>
  The \<open>file\<close> argument: a value with an \<open>arrayBuffer\<close> method (its name, its type
  and what \<open>arrayBuffer()\<close> settles with), or any value without one.
\<close>

record 'n blob =
  blob_name :: string
  blob_type :: string
  blob_arrayBuffer :: "'n thrown + nat list"

datatype 'n file_arg = NoArrayBuffer "'n jsval" | Blob "'n blob"

definition folder_mime :: string where
  "folder_mime = ''application/vnd.google-apps.folder''"

definition unnamed_project :: string where
  "unnamed_project =
     [CHR 0xE6, CHR 0x9C, CHR 0xAA, CHR 0xE5, CHR 0x91, CHR 0xBD, CHR 0xE5, CHR 0x90, CHR 0x8D,
      CHR 0xE5, CHR 0xB0, CHR 0x88, CHR 0xE6, CHR 0xA1, CHR 0x88]"

definition folder_query :: "'n runtime \<Rightarrow> string \<Rightarrow> 'n jsval \<Rightarrow> string" where
  "folder_query rt root folderName =
     ''mimeType='' @ [CHR 0x27] @ folder_mime @ [CHR 0x27] @ '' and '' @
     [CHR 0x27] @ root @ [CHR 0x27] @ '' in parents'' @ '' and '' @
     ''name='' @ [CHR 0x27] @ js_String rt folderName @ [CHR 0x27] @ '' and '' @
     ''trashed=false''"

text \<open>\<open>files && files.length > 0\<close>, for the \<open>files\<close> of a Drive listing.\<close>

definition has_elements :: "'n jsval \<Rightarrow> bool" where
  "has_elements files = (case files of Arr xs \<Rightarrow> xs \<noteq> [] | Str s \<Rightarrow> s \<noteq> '''' | _ \<Rightarrow> False)"

text \<open>The block that leaves \<open>folderId\<close>: \<open>null\<close> without a configured root folder.\<close>

definition find_or_create_folder :: "'n world \<Rightarrow> 'n jsval \<Rightarrow> ('n, 'n jsval) async" where
  "find_or_create_folder w folderName =
     (case DRIVE_ROOT_FOLDER_ID w of
        None \<Rightarrow> return Null
      | Some root \<Rightarrow>
          if root = '''' then return Null
          else await (remote w (DriveFilesList (folder_query (runtime w) root folderName)
                                  ''files(id, name)'' ''drive'')) (\<lambda>searchRes.
               await (lift (prop_of searchRes ''result'')) (\<lambda>result.
               await (lift (prop_of result ''files'')) (\<lambda>files.
                 if has_elements files
                 then lift (prop_of (get_prop files ''0'') ''id'')
                 else await (remote w (DriveFilesCreate
                               (Obj [(''name'', if truthy (runtime w) folderName then folderName
                                                else Str unnamed_project),
                                     (''mimeType'', Str folder_mime),
                                     (''parents'', Arr [Str root])])
                               ''id, name'')) (\<lambda>newFolderRes.
                      await (lift (prop_of newFolderRes ''result'')) (\<lambda>created.
                      lift (prop_of created ''id'')))))))"

definition boundary :: string where
  "boundary = ''-------314159265358979323846''"

definition CRLF :: string where
  "CRLF = [CHR 0x0D, CHR 0x0A]"

definition multipartBody :: "string \<Rightarrow> string \<Rightarrow> string \<Rightarrow> string" where
  "multipartBody metadataJson fileType base64Data =
     (CRLF @ ''--'' @ boundary @ CRLF) @
     ''Content-Type: application/json; charset=UTF-8'' @ CRLF @ CRLF @
     metadataJson @
     (CRLF @ ''--'' @ boundary @ CRLF) @
     ''Content-Type: '' @ (if fileType = '''' then ''application/octet-stream'' else fileType) @ CRLF @
     ''Content-Transfer-Encoding: base64'' @ CRLF @ CRLF @
     base64Data @
     (CRLF @ ''--'' @ boundary @ ''--'')"

definition mock_result :: "'n world \<Rightarrow> 'n jsval" where
  "mock_result w =
     Obj [(''success'', Bool True),
          (''url'', Str (''https://drive.google.com/file/d/mock-'' @ show_nat (Date_now w)))]"

definition uploadToDrive :: "'n world \<Rightarrow> 'n file_arg \<Rightarrow> 'n jsval \<Rightarrow> ('n, 'n jsval) async" where
  "uploadToDrive w file folderName =
     await (ensureGapiClient w) (\<lambda>_.
       case file of
         NoArrayBuffer v \<Rightarrow> return (mock_result w)
       | Blob b \<Rightarrow>
           await (find_or_create_folder w folderName) (\<lambda>folderId.
             let metadata =
                   Obj [(''name'', Str (blob_name b)),
                        (''parents'',
                           Arr (if truthy (runtime w) folderId then [folderId]
                                else case DRIVE_ROOT_FOLDER_ID w of
                                       None \<Rightarrow> []
                                     | Some root \<Rightarrow> if root = '''' then [] else [Str root]))]
             in await (lift (blob_arrayBuffer b)) (\<lambda>data.
                case JSON_stringify (runtime w) metadata of
                  None \<Rightarrow> throw TypeError
                | Some metadataJson \<Rightarrow>
                    await (remote w (GapiRequest ''/upload/drive/v3/files'' ''POST''
                             [(''uploadType'', ''multipart'')]
                             [(''Content-Type'', ''multipart/related; boundary='' @ boundary)]
                             (multipartBody metadataJson (blob_type b) (btoa (runtime w) data))))
                      (\<lambda>res. lift (prop_of res ''result'')))))"

section \<open>The token-exchange endpoint (api handler)\<close>

record 'n http_request =
  req_method :: string
  req_origin :: "string option"
  req_body :: "'n jsval"

record 'n http_response =
  status :: nat
  headers :: "(string \<times> string) list"
  json_body :: "'n jsval option"

text \<open>
  The server's environment, and the provider's token endpoint: what \<open>fetch\<close> settles
  with for a form body, a reply with its status and what \<open>r.json()\<close> settles with.
\<close>

record 'n provider_reply =
  reply_status :: nat
  reply_json :: "'n thrown + 'n jsval"

record 'n server =
  server_runtime :: "'n runtime"
  GOOGLE_CLIENT_ID :: "string option"
  GOOGLE_CLIENT_SECRET :: "string option"
  fetch_token :: "(string \<times> string) list \<Rightarrow> 'n thrown + 'n provider_reply"

definition allowlist :: "string list" where
  "allowlist =
     [''http://localhost:5173'', ''http://localhost:5174'',
      ''https://senteng-design-system.vercel.app'']"

definition cors_headers :: "string option \<Rightarrow> (string \<times> string) list" where
  "cors_headers origin_header =
     (let origin = (case origin_header of None \<Rightarrow> '''' | Some s \<Rightarrow> s);
          h0 = (if origin \<in> set allowlist
                then AList.update ''Vary'' ''Origin''
                       (AList.update ''Access-Control-Allow-Origin'' origin [])
                else [])
      in AList.update ''Access-Control-Allow-Headers'' ''Content-Type''
           (AList.update ''Access-Control-Allow-Methods'' ''POST, OPTIONS'' h0))"

text \<open>\<open>e?.message || String(e)\<close>\<close>

definition thrown_message :: "'n thrown \<Rightarrow> 'n jsval" where
  "thrown_message e =
     (case e of
        Exception name msg \<Rightarrow> Str msg
      | Rejection v \<Rightarrow> (case v of Undefined \<Rightarrow> Undefined | Null \<Rightarrow> Undefined | _ \<Rightarrow> get_prop v ''message''))"

definition thrown_String :: "'n runtime \<Rightarrow> 'n thrown \<Rightarrow> string" where
  "thrown_String rt e =
     (case e of
        Exception name msg \<Rightarrow>
          (if msg = '''' then name else if name = '''' then msg else name @ '': '' @ msg)
      | Rejection v \<Rightarrow> js_String rt v)"

definition error_description :: "'n runtime \<Rightarrow> 'n thrown \<Rightarrow> 'n jsval" where
  "error_description rt e =
     (if truthy rt (thrown_message e) then thrown_message e else Str (thrown_String rt e))"

definition error_body :: "string \<Rightarrow> 'n jsval \<Rightarrow> 'n jsval" where
  "error_body err descr = Obj [(''error'', Str err), (''error_description'', descr)]"

text \<open>
  The handler returns the response and the form bodies it posted to the provider, oldest
  first.
\<close>

definition handler :: "'n server \<Rightarrow> 'n http_request \<Rightarrow> 'n http_response \<times> (string \<times> string) list list" where
  "handler srv req =
     (let rt = server_runtime srv;
          hs = cors_headers (req_origin req)
      in if req_method req = ''OPTIONS''
         then (\<lparr>status = 204, headers = hs, json_body = None\<rparr>, [])
         else if req_method req \<noteq> ''POST''
         then (\<lparr>status = 405, headers = hs,
                json_body = Some (Obj [(''error'', Str ''method_not_allowed'')])\<rparr>, [])
         else
           let body = or_empty_object rt (req_body req);
               code = get_prop body ''code'';
               codeVerifier = get_prop body ''codeVerifier'';
               redirectUri = get_prop body ''redirectUri''
           in if \<not> truthy rt code \<or> \<not> truthy rt codeVerifier \<or> \<not> truthy rt redirectUri
              then (\<lparr>status = 400, headers = hs,
                     json_body = Some (error_body ''invalid_request''
                                   (Str ''Missing code / codeVerifier / redirectUri''))\<rparr>, [])
              else if unset (GOOGLE_CLIENT_ID srv) \<or> unset (GOOGLE_CLIENT_SECRET srv)
              then (\<lparr>status = 500, headers = hs,
                     json_body = Some (error_body ''server_misconfigured''
                                   (Str ''Missing GOOGLE_CLIENT_ID or GOOGLE_CLIENT_SECRET''))\<rparr>, [])
              else
                let form = [(''client_id'', case_option '''' id (GOOGLE_CLIENT_ID srv)),
                            (''client_secret'', case_option '''' id (GOOGLE_CLIENT_SECRET srv)),
                            (''code'', js_String rt code),
                            (''code_verifier'', js_String rt codeVerifier),
                            (''grant_type'', ''authorization_code''),
                            (''redirect_uri'', js_String rt redirectUri)]
                in case fetch_token srv form of
                     Inl e \<Rightarrow>
                       (\<lparr>status = 500, headers = hs,
                         json_body = Some (error_body ''server_error'' (error_description rt e))\<rparr>,
                        [form])
                   | Inr r \<Rightarrow>
                       (case reply_json r of
                          Inl e \<Rightarrow>
                            (\<lparr>status = 500, headers = hs,
                              json_body = Some (error_body ''server_error'' (error_description rt e))\<rparr>,
                             [form])
                        | Inr data \<Rightarrow>
                            if \<not> (200 \<le> reply_status r \<and> reply_status r \<le> 299)
                            then (\<lparr>status = reply_status r, headers = hs, json_body = Some data\<rparr>,
                                  [form])
                            else (\<lparr>status = 200, headers = hs, json_body = Some data\<rparr>, [form])))"

section \<open>Overlapping invocations of \<open>ensureGapiClient\<close>\<close>

text \<open>
  The page runs one piece of code at a time; an \<open>async\<close> function runs until its next
  \<open>await\<close> and continues when the awaited promise has settled, and other code runs in
  between. An invocation of \<open>ensureGapiClient\<close> is therefore a program counter: the
  \<open>await\<close> it is suspended at, or how it ended. \<open>AwaitScriptPresent\<close> is the
  \<open>await loadGapiScript()\<close> whose promise resolved at once because \<open>window.gapi\<close>
  existed; \<open>ReturnedEarly\<close> is the \<open>return\<close> of the first line.
\<close>

datatype 'n pc =
    AwaitScriptTag
  | AwaitScriptPresent
  | AwaitGapiLoad
  | AwaitClientInit
  | ReturnedEarly
  | Returned
  | Threw "'n thrown"

text \<open>The code from the call to the first \<open>await\<close>.\<close>

definition enter :: "'n world \<Rightarrow> 'n state \<Rightarrow> 'n pc \<times> 'n state" where
  "enter w st =
     (if gapiInited st then (ReturnedEarly, st)
      else if unset (CLIENT_ID w) \<or> unset (API_KEY w)
      then (Threw (JsError ''Missing CLIENT_ID or API_KEY''), st)
      else if window_gapi st then (AwaitScriptPresent, st)
      else (AwaitScriptTag,
            st\<lparr>trace := trace st @ [LoadScript ''https://apis.google.com/js/api.js'']\<rparr>))"

text \<open>
  The code from one \<open>await\<close> to the next, given what the awaited promise settled with.
  The script that has loaded has defined \<open>window.gapi\<close>.
\<close>

fun resume :: "'n world \<Rightarrow> 'n pc \<Rightarrow> 'n thrown + 'n jsval \<Rightarrow> 'n state \<Rightarrow> 'n pc \<times> 'n state" where
  "resume w AwaitScriptTag (Inl e) st = (Threw e, st)"
| "resume w AwaitScriptTag (Inr v) st =
     (AwaitGapiLoad, st\<lparr>window_gapi := True, trace := trace st @ [GapiLoad ''client'']\<rparr>)"
| "resume w AwaitScriptPresent r st =
     (AwaitGapiLoad, st\<lparr>trace := trace st @ [GapiLoad ''client'']\<rparr>)"
| "resume w AwaitGapiLoad (Inl e) st = (Threw e, st)"
| "resume w AwaitGapiLoad (Inr v) st =
     (AwaitClientInit, st\<lparr>trace := trace st @ [ClientInit (API_KEY w) DISCOVERY_DOCS]\<rparr>)"
| "resume w AwaitClientInit (Inl e) st = (Threw e, st)"
| "resume w AwaitClientInit (Inr v) st = (Returned, st\<lparr>gapiInited := True\<rparr>)"
| "resume w ReturnedEarly r st = (ReturnedEarly, st)"
| "resume w Returned r st = (Returned, st)"
| "resume w (Threw e) r st = (Threw e, st)"

text \<open>
  The page: the module state and the invocations made so far. An event is a new
  invocation, or the settling of the promise that invocation \<open>i\<close> is suspended at.
\<close>

record 'n page =
  shared :: "'n state"
  tasks :: "'n pc list"

datatype 'n event = Invoke | Settle nat "'n thrown + 'n jsval"

fun step :: "'n world \<Rightarrow> 'n page \<Rightarrow> 'n event \<Rightarrow> 'n page" where
  "step w pg Invoke =
     (case enter w (shared pg) of (p, st) \<Rightarrow> \<lparr>shared = st, tasks = tasks pg @ [p]\<rparr>)"
| "step w pg (Settle i r) =
     (if i < length (tasks pg)
      then case resume w (tasks pg ! i) r (shared pg) of
             (p, st) \<Rightarrow> \<lparr>shared = st, tasks = (tasks pg)[i := p]\<rparr>
      else pg)"

definition run :: "'n world \<Rightarrow> 'n page \<Rightarrow> 'n event list \<Rightarrow> 'n page" where
  "run w pg evs = foldl (step w) pg evs"

text \<open>
  One invocation run to its end with nothing in between: each promise settles with the
  answer of the world to the request just issued.
\<close>

definition answer :: "'n world \<Rightarrow> 'n state \<Rightarrow> 'n thrown + 'n jsval" where
  "answer w st = respond w (butlast (trace st)) (last (trace st))"

definition run_alone :: "'n world \<Rightarrow> 'n state \<Rightarrow> 'n pc \<times> 'n state" where
  "run_alone w st =
     (case enter w st of (p0, s0) \<Rightarrow>
      case resume w p0 (answer w s0) s0 of (p1, s1) \<Rightarrow>
      case resume w p1 (answer w s1) s1 of (p2, s2) \<Rightarrow>
      resume w p2 (answer w s2) s2)"

definition outcome_of :: "'n pc \<Rightarrow> ('n thrown + unit) option" where
  "outcome_of p =
     (case p of
        ReturnedEarly \<Rightarrow> Some (Inr ())
      | Returned \<Rightarrow> Some (Inr ())
      | Threw e \<Rightarrow> Some (Inl e)
      | _ \<Rightarrow> None)"

section \<open>Vocabulary of the properties\<close>

subsection \<open>Kinds of requests, and how many a trace holds\<close>

definition is_script_load :: "'n request \<Rightarrow> bool" where
  "is_script_load req = (case req of LoadScript url \<Rightarrow> True | _ \<Rightarrow> False)"

definition is_gapi_load :: "'n request \<Rightarrow> bool" where
  "is_gapi_load req = (case req of GapiLoad name \<Rightarrow> True | _ \<Rightarrow> False)"

definition is_client_init :: "'n request \<Rightarrow> bool" where
  "is_client_init req = (case req of ClientInit key docs \<Rightarrow> True | _ \<Rightarrow> False)"

text \<open>The requests \<open>ensureGapiClient\<close> makes.\<close>

definition is_bootstrap :: "'n request \<Rightarrow> bool" where
  "is_bootstrap req = (is_script_load req \<or> is_gapi_load req \<or> is_client_init req)"

definition is_sheets_update :: "'n request \<Rightarrow> bool" where
  "is_sheets_update req = (case req of SheetsUpdate sid rng opt rows \<Rightarrow> True | _ \<Rightarrow> False)"

definition is_calendar_insert :: "'n request \<Rightarrow> bool" where
  "is_calendar_insert req = (case req of CalendarInsert cal res \<Rightarrow> True | _ \<Rightarrow> False)"

definition count_requests :: "('n request \<Rightarrow> bool) \<Rightarrow> 'n request list \<Rightarrow> nat" where
  "count_requests P reqs = length (filter P reqs)"

subsection \<open>Kinds of values\<close>

definition Array_isArray :: "'n jsval \<Rightarrow> bool" where
  "Array_isArray v = (case v of Arr xs \<Rightarrow> True | _ \<Rightarrow> False)"

definition is_record :: "'n jsval \<Rightarrow> bool" where
  "is_record v = (case v of Obj kvs \<Rightarrow> True | _ \<Rightarrow> False)"

subsection \<open>The round-trip law, in the words of the specification\<close>

text \<open>
  The specification states the round trip as: the collection read back is set-equal to
  the projection of the original restricted to its primitive-serializable fields,
  non-scalar values compared as their JSON text. These definitions follow the
  specification, not the code; they are compared with what the code does.

  A field is kept by the projection when its value is neither \<open>null\<close> nor
  \<open>undefined\<close> (the specification has these written as the empty text, which reads back
  as a text, not as them). The projection of a record has exactly the kept fields, each
  with the text of its value. Two records are the same when they have the same fields
  with the same texts, in any order. The collections are set-equal when every record read
  back is the same as the projection of some original, and the projection of every
  original is the same as some record read back.
\<close>

definition primitive_serializable :: "'n jsval \<Rightarrow> bool" where
  "primitive_serializable v = (case v of Undefined \<Rightarrow> False | Null \<Rightarrow> False | _ \<Rightarrow> True)"

definition field_values :: "'n jsval \<Rightarrow> 'n jsval list" where
  "field_values item = (case item of Obj kvs \<Rightarrow> map snd kvs | _ \<Rightarrow> [])"

definition spec_projection :: "'n runtime \<Rightarrow> 'n jsval \<Rightarrow> row_obj" where
  "spec_projection rt item =
     (case item of
        Obj kvs \<Rightarrow>
          map (\<lambda>(k, v). (k, value_text rt v)) (filter (\<lambda>(k, v). primitive_serializable v) kvs)
      | _ \<Rightarrow> [])"

definition same_record :: "row_obj \<Rightarrow> row_obj \<Rightarrow> bool" where
  "same_record a b = list_all (\<lambda>k. map_of a k = map_of b k) (map fst a @ map fst b)"

definition spec_roundtrip_law :: "'n runtime \<Rightarrow> 'n jsval list \<Rightarrow> row_obj list \<Rightarrow> bool" where
  "spec_roundtrip_law rt values objs =
     (list_all (\<lambda>obj. list_ex (\<lambda>item. same_record obj (spec_projection rt item)) values) objs \<and>
      list_all (\<lambda>item. list_ex (\<lambda>obj. same_record obj (spec_projection rt item)) objs) values)"

subsection \<open>Accounting for the requests of overlapping invocations\<close>

text \<open>
  The \<open>gapi.load\<close> and \<open>gapi.client.init\<close> calls an invocation has made when it
  stands at a program counter without having thrown.
\<close>

fun gapi_loads_by :: "'n pc \<Rightarrow> nat" where
  "gapi_loads_by AwaitGapiLoad = 1"
| "gapi_loads_by AwaitClientInit = 1"
| "gapi_loads_by Returned = 1"
| "gapi_loads_by p = 0"

fun client_inits_by :: "'n pc \<Rightarrow> nat" where
  "client_inits_by AwaitClientInit = 1"
| "client_inits_by Returned = 1"
| "client_inits_by p = 0"

definition has_thrown :: "'n pc \<Rightarrow> bool" where
  "has_thrown p = (case p of Threw e \<Rightarrow> True | _ \<Rightarrow> False)"

text \<open>
  Two invariants of a page. \<open>accounted\<close>: unless an invocation has thrown, the trace
  holds, beyond what it held in the state \<open>st0\<close> the page started from, exactly the calls
  its invocations have made. \<open>none_skipped\<close>: no invocation took the early return, and
  \<open>gapiInited\<close> is set only once an invocation has returned.
\<close>

definition accounted :: "'n state \<Rightarrow> 'n page \<Rightarrow> bool" where
  "accounted st0 pg =
     (list_ex has_thrown (tasks pg) \<or>
      (count_requests is_gapi_load (trace (shared pg))
         = count_requests is_gapi_load (trace st0) + sum_list (map gapi_loads_by (tasks pg)) \<and>
       count_requests is_client_init (trace (shared pg))
         = count_requests is_client_init (trace st0) + sum_list (map client_inits_by (tasks pg))))"

definition none_skipped :: "'n page \<Rightarrow> bool" where
  "none_skipped pg =
     (ReturnedEarly \<notin> set (tasks pg) \<and> (gapiInited (shared pg) \<longrightarrow> Returned \<in> set (tasks pg)))"

section \<open>Concrete instances\<close>

text \<open>
  A runtime over integer-valued numbers, with texts for arrays and objects that are enough
  to run the examples; its \<open>Date\<close> reads a date text as local time in Taipei. Of the
  built-in members it gives the \<open>constructor\<close> an object inherits and the
  \<open>length\<close> of an array or a text, and it indexes a text by character, which is right
  for the ASCII texts of the examples. A world in which every request succeeds, and the
  same world without its build-time configuration.
\<close>

definition demo_runtime :: "int runtime" where
  "demo_runtime =
     \<lparr> numberToString = (\<lambda>n. if n < 0 then ''-'' @ show_nat (nat (- n)) else show_nat (nat n)),
       numberIsFalsy = (\<lambda>n. n = 0),
       objectToString = (\<lambda>v. ''[object Object]''),
       JSON_stringify = (\<lambda>v. Some ''{}''),
       Date_parse = (\<lambda>s. if s = ''2025-06-01 10:00'' then Some 1748743200000 else None),
       Date_toISOString = (\<lambda>t. if t = 1748743200000 then ''2025-06-01T02:00:00.000Z''
                                  else if t = 1748746800000 then ''2025-06-01T03:00:00.000Z''
                                  else ''?''),
       btoa = (\<lambda>bytes. ''''),
       builtinMember =
         (\<lambda>v key. case v of
                     Obj kvs \<Rightarrow> if key = ''constructor''
                                then Function ''function Object() { [native code] }''
                                else Data Undefined
                   | Arr xs \<Rightarrow> if key = ''length'' then Data (Num (int (length xs)))
                               else Data Undefined
                   | Str s \<Rightarrow> if key = ''length'' then Data (Num (int (length s)))
                              else Data Undefined
                   | _ \<Rightarrow> Data Undefined),
       stringUnits = map (\<lambda>c. [c]) \<rparr>"

definition demo_world :: "int world" where
  "demo_world =
     \<lparr> runtime = demo_runtime,
       CLIENT_ID = Some ''client'',
       API_KEY = Some ''key'',
       SPREADSHEET_ID = Some ''sheet'',
       DRIVE_ROOT_FOLDER_ID = None,
       Date_now = 1700000000000,
       respond = (\<lambda>reqs req. Inr (Obj [(''result'', Obj [])])) \<rparr>"

definition unconfigured_world :: "int world" where
  "unconfigured_world = demo_world\<lparr>CLIENT_ID := None, API_KEY := None\<rparr>"

text \<open>
  The module state when the page has just loaded, when the API client is initialised, and
  when a user has signed in.
\<close>

definition fresh :: "int state" where
  "fresh =
     \<lparr> gapiInited = False, gisInited = False, tokenClient = Null, accessToken = Null,
       window_gapi = False, window_gis = False, trace = [] \<rparr>"

definition ready :: "int state" where
  "ready = fresh\<lparr>gapiInited := True, window_gapi := True\<rparr>"

definition signed_in :: "int state" where
  "signed_in = ready\<lparr>gisInited := True, tokenClient := Obj [], accessToken := Str ''ya29.token''\<rparr>"

text \<open>
  A grid whose first row carries the identifier the second row is given.
\<close>

definition colliding_grid :: "string list list" where
  "colliding_grid = [[''id'', ''name''], [''projects-2'', ''A''], ['''', ''B'']]"

text \<open>
  Collections of project records. In \<open>mixed_projects\<close> the records have different keys,
  and the second has no identifier. In \<open>uniform_projects\<close> both records have the same
  keys, an identifier among them. In \<open>padded_projects\<close> both records have an identifier
  and all values are texts, and only the first has a \<open>status\<close>. In
  \<open>branded_projects\<close> the first record has a field named like a member every object
  inherits.
\<close>

definition mixed_projects :: "int jsval list" where
  "mixed_projects =
     [Obj [(''id'', Str ''p-7''), (''name'', Str ''Loft'')],
      Obj [(''name'', Str ''Attic''), (''budget'', Num 120000)]]"

definition uniform_projects :: "int jsval list" where
  "uniform_projects =
     [Obj [(''id'', Str ''p-7''), (''name'', Str ''Loft'')],
      Obj [(''name'', Str ''Attic''), (''id'', Str ''p-8'')]]"

definition padded_projects :: "int jsval list" where
  "padded_projects =
     [Obj [(''id'', Str ''p-1''), (''name'', Str ''Loft''), (''status'', Str ''done'')],
      Obj [(''id'', Str ''p-2''), (''name'', Str ''Attic'')]]"

definition branded_projects :: "int jsval list" where
  "branded_projects =
     [Obj [(''constructor'', Str ''ACME''), (''id'', Str ''1'')],
      Obj [(''id'', Str ''2'')]]"

text \<open>
  Events: one without a title; and the survey appointment (its title is the UTF-8 text of
  the two characters U+4E08 U+91CF) with a date and no time.
\<close>

definition untitled_event :: "int jsval" where
  "untitled_event = Obj [(''date'', Str ''2025-06-01'')]"

definition survey_title :: string where
  "survey_title = [CHR 0xE4, CHR 0xB8, CHR 0x88, CHR 0xE9, CHR 0x87, CHR 0x8F]"

definition survey_event :: "int jsval" where
  "survey_event = Obj [(''title'', Str survey_title), (''date'', Str ''2025-06-01'')]"

text \<open>
  A server without credentials, a token request without \<open>code\<close> from an allowed origin,
  and a complete one from another origin.
\<close>

definition demo_server :: "int server" where
  "demo_server =
     \<lparr> server_runtime = demo_runtime,
       GOOGLE_CLIENT_ID = None,
       GOOGLE_CLIENT_SECRET = None,
       fetch_token = (\<lambda>form. Inl (Exception ''TypeError'' ''fetch failed'')) \<rparr>"

definition post_without_code :: "int http_request" where
  "post_without_code =
     \<lparr> req_method = ''POST'', req_origin = Some ''http://localhost:5173'',
       req_body = Obj [(''codeVerifier'', Str ''v''), (''redirectUri'', Str ''http://localhost:5173/cb'')] \<rparr>"

definition post_complete :: "int http_request" where
  "post_complete =
     \<lparr> req_method = ''POST'', req_origin = Some ''http://elsewhere.example'',
       req_body = Obj [(''code'', Str ''c''), (''codeVerifier'', Str ''v''),
                       (''redirectUri'', Str ''http://localhost:5173/cb'')] \<rparr>"

text \<open>
  Two invocations made one after the other before anything settles, then every promise
  settling successfully, alternately.
\<close>

definition ok_settle :: "'n thrown + 'n jsval" where
  "ok_settle = Inr Undefined"

definition both_at_once :: "int event list" where
  "both_at_once =
     [Invoke, Invoke, Settle 0 ok_settle, Settle 1 ok_settle, Settle 0 ok_settle,
      Settle 1 ok_settle, Settle 0 ok_settle, Settle 1 ok_settle]"

section \<open>The reader\<close>

subsection \<open>Distinct positions render differently\<close>

lemma digit_char_inj:
  assumes "a < 10" "b < 10" "digit_char a = digit_char b"
  shows "a = b"
proof -
  have d: "distinct ''0123456789''" by simp
  have l: "length ''0123456789'' = 10" by simp
  from assms show ?thesis
    unfolding digit_char_def using d l nth_eq_iff_index_eq by metis
qed

lemma show_nat_length_pos: "0 < length (show_nat n)"
  by (subst show_nat.simps) simp

lemma show_nat_length_ge2:
  assumes "10 \<le> n"
  shows "2 \<le> length (show_nat n)"
proof -
  have "show_nat n = show_nat (n div 10) @ [digit_char (n mod 10)]"
    using assms by (subst show_nat.simps) simp
  then have "length (show_nat n) = Suc (length (show_nat (n div 10)))" by simp
  then show ?thesis using show_nat_length_pos [of "n div 10"] by linarith
qed

lemma show_nat_inj: "show_nat m = show_nat n \<Longrightarrow> m = n"
proof (induction m arbitrary: n rule: show_nat.induct)
  case (1 m)
  show ?case
  proof (cases "m < 10")
    case small_m: True
    show ?thesis
    proof (cases "n < 10")
      case True
      with small_m "1.prems" show ?thesis
        by (simp add: show_nat.simps [of m] show_nat.simps [of n] digit_char_inj)
    next
      case False
      then have "2 \<le> length (show_nat n)" by (simp add: show_nat_length_ge2)
      moreover have "length (show_nat m) = 1" using small_m by (simp add: show_nat.simps [of m])
      ultimately show ?thesis using "1.prems" by simp
    qed
  next
    case big_m: False
    show ?thesis
    proof (cases "n < 10")
      case True
      then have "length (show_nat n) = 1" by (simp add: show_nat.simps [of n])
      moreover have "2 \<le> length (show_nat m)" using big_m by (simp add: show_nat_length_ge2)
      ultimately show ?thesis using "1.prems" by simp
    next
      case False
      with big_m "1.prems"
      have eq: "show_nat (m div 10) @ [digit_char (m mod 10)]
              = show_nat (n div 10) @ [digit_char (n mod 10)]"
        by (simp add: show_nat.simps [of m] show_nat.simps [of n])
      then have "show_nat (m div 10) = show_nat (n div 10)"
        and dg: "digit_char (m mod 10) = digit_char (n mod 10)" by simp_all
      then have q: "m div 10 = n div 10" using "1.IH" big_m by simp
      have r: "m mod 10 = n mod 10" using dg by (simp add: digit_char_inj)
      from q r show ?thesis by (metis div_mult_mod_eq)
    qed
  qed
qed

lemma synthesized_id_inj: "synthesized_id s i = synthesized_id s j \<Longrightarrow> i = j"
  by (auto simp: synthesized_id_def dest: show_nat_inj)

lemma synthesized_id_nonempty: "synthesized_id s i \<noteq> ''''"
  by (simp add: synthesized_id_def)

subsection \<open>The record of a row\<close>

lemma header_forEach_distinct:
  "distinct (map fst obj) \<Longrightarrow> distinct (map fst (header_forEach header i row obj))"
  by (induction header i row obj rule: header_forEach.induct) (simp_all add: distinct_update)

lemma row_to_object_distinct: "distinct (map fst (row_to_object header s idx row))"
  by (simp add: row_to_object_def Let_def header_forEach_distinct distinct_update)

lemma row_to_object_id:
  "id_of (row_to_object header s idx row) =
     (if lacks_id (header_forEach header 0 row []) then Some (synthesized_id s idx)
      else id_of (header_forEach header 0 row []))"
  by (simp add: row_to_object_def Let_def id_of_def update_conv')

lemma row_to_object_has_id:
  "\<exists>v. id_of (row_to_object header s idx row) = Some v \<and> v \<noteq> ''''"
proof (cases "lacks_id (header_forEach header 0 row [])")
  case True
  then show ?thesis by (simp add: row_to_object_id synthesized_id_nonempty)
next
  case False
  then obtain v where "id_of (header_forEach header 0 row []) = Some v" and "v \<noteq> ''''"
    by (auto simp: lacks_id_def id_of_def split: option.splits)
  with False show ?thesis by (simp add: row_to_object_id)
qed

lemma sheetValuesToObjects_length:
  "length (sheetValuesToObjects (Some (header # rows)) s) = length rows"
  by (simp add: sheetValuesToObjects_def)

lemma sheetValuesToObjects_nth:
  "i < length rows \<Longrightarrow>
     sheetValuesToObjects (Some (header # rows)) s ! i = row_to_object header s i (rows ! i)"
  by (simp add: sheetValuesToObjects_def nth_enumerate_eq)

subsection \<open>Identifiers\<close>

text \<open>
  Claim C2, as the code has it. Every record read from a row carries exactly one
  identifier, which is not empty; a row without one (no \<open>id\<close> column, no cell, or an
  empty cell) gets the sheet name, a dash and its position counted from one, and a row with
  one keeps its record unchanged. Two rows that both receive a synthesized identifier
  receive different ones. (An identifier taken from the sheet is not compared with any
  other.)
\<close>
theorem sheetValuesToObjects_identifiers:
  assumes "i < length rows" and "j < length rows"
  shows "length (sheetValuesToObjects (Some (header # rows)) s) = length rows
   \<and> distinct (map fst (sheetValuesToObjects (Some (header # rows)) s ! i))
   \<and> (\<exists>v. id_of (sheetValuesToObjects (Some (header # rows)) s ! i) = Some v \<and> v \<noteq> '''')
   \<and> (lacks_id (header_forEach header 0 (rows ! i) []) \<longrightarrow>
         id_of (sheetValuesToObjects (Some (header # rows)) s ! i) = Some (synthesized_id s i))
   \<and> (\<not> lacks_id (header_forEach header 0 (rows ! i) []) \<longrightarrow>
         sheetValuesToObjects (Some (header # rows)) s ! i = header_forEach header 0 (rows ! i) [])
   \<and> (i \<noteq> j \<and> lacks_id (header_forEach header 0 (rows ! i) [])
              \<and> lacks_id (header_forEach header 0 (rows ! j) []) \<longrightarrow>
         id_of (sheetValuesToObjects (Some (header # rows)) s ! i)
           \<noteq> id_of (sheetValuesToObjects (Some (header # rows)) s ! j))"
proof (intro conjI impI)
  show "length (sheetValuesToObjects (Some (header # rows)) s) = length rows"
    by (rule sheetValuesToObjects_length)
next
  show "distinct (map fst (sheetValuesToObjects (Some (header # rows)) s ! i))"
    using assms(1) by (simp add: sheetValuesToObjects_nth row_to_object_distinct)
next
  show "\<exists>v. id_of (sheetValuesToObjects (Some (header # rows)) s ! i) = Some v \<and> v \<noteq> ''''"
    using assms(1) by (simp add: sheetValuesToObjects_nth row_to_object_has_id)
next
  assume "lacks_id (header_forEach header 0 (rows ! i) [])"
  then show "id_of (sheetValuesToObjects (Some (header # rows)) s ! i) = Some (synthesized_id s i)"
    using assms(1) by (simp add: sheetValuesToObjects_nth row_to_object_id)
next
  assume "\<not> lacks_id (header_forEach header 0 (rows ! i) [])"
  then show "sheetValuesToObjects (Some (header # rows)) s ! i = header_forEach header 0 (rows ! i) []"
    using assms(1) by (simp add: sheetValuesToObjects_nth row_to_object_def)
next
  assume "i \<noteq> j \<and> lacks_id (header_forEach header 0 (rows ! i) [])
              \<and> lacks_id (header_forEach header 0 (rows ! j) [])"
  then show "id_of (sheetValuesToObjects (Some (header # rows)) s ! i)
          \<noteq> id_of (sheetValuesToObjects (Some (header # rows)) s ! j)"
    using assms by (auto simp: sheetValuesToObjects_nth row_to_object_id dest: synthesized_id_inj)
qed

theorem sheetValuesToObjects_identifiers_witness:
  "lacks_id (header_forEach [''name''] 0 ([[''A''], [''B'']] ! 0) [])
   \<and> lacks_id (header_forEach [''name''] 0 ([[''A''], [''B'']] ! 1) [])
   \<and> id_of (sheetValuesToObjects (Some [[''name''], [''A''], [''B'']]) ''projects'' ! 0)
        = Some ''projects-1''
   \<and> id_of (sheetValuesToObjects (Some [[''name''], [''A''], [''B'']]) ''projects'' ! 1)
        = Some ''projects-2''
   \<and> id_of (sheetValuesToObjects (Some [[''name''], [''A''], [''B'']]) ''projects'' ! 0)
        \<noteq> id_of (sheetValuesToObjects (Some [[''name''], [''A''], [''B'']]) ''projects'' ! 1)"
proof -
  have i0: "0 < length [[''A''], [''B'']]" and i1: "1 < length [[''A''], [''B'']]" by simp_all
  have l0: "lacks_id (header_forEach [''name''] 0 ([[''A''], [''B'']] ! 0) [])"
    by (simp add: lacks_id_def cell_at_def)
  have l1: "lacks_id (header_forEach [''name''] 0 ([[''A''], [''B'']] ! 1) [])"
    by (simp add: lacks_id_def cell_at_def)
  have s: "synthesized_id ''projects'' 0 = ''projects-1''" "synthesized_id ''projects'' 1 = ''projects-2''"
    by (simp_all add: synthesized_id_def show_nat.simps digit_char_def)
  have n: "(0::nat) \<noteq> 1" by simp
  from sheetValuesToObjects_identifiers [OF i0 i1, of "[''name'']" "''projects''"] l0 l1 n
  have a: "id_of (sheetValuesToObjects (Some [[''name''], [''A''], [''B'']]) ''projects'' ! 0)
             = Some (synthesized_id ''projects'' 0)"
    and c: "id_of (sheetValuesToObjects (Some [[''name''], [''A''], [''B'']]) ''projects'' ! 0)
        \<noteq> id_of (sheetValuesToObjects (Some [[''name''], [''A''], [''B'']]) ''projects'' ! 1)"
    by blast+
  from sheetValuesToObjects_identifiers [OF i1 i0, of "[''name'']" "''projects''"] l1
  have b: "id_of (sheetValuesToObjects (Some [[''name''], [''A''], [''B'']]) ''projects'' ! 1)
             = Some (synthesized_id ''projects'' 1)"
    by blast
  from l0 l1 a [unfolded s] b [unfolded s] c show ?thesis by blast
qed

theorem sheetValuesToObjects_identifiers_counterexample:
  "map id_of (sheetValuesToObjects (Some colliding_grid) ''projects'')
     = [Some ''projects-2'', Some ''projects-2'']
   \<and> \<not> distinct (map id_of (sheetValuesToObjects (Some colliding_grid) ''projects''))"
  by (simp add: sheetValuesToObjects_def colliding_grid_def enumerate_eq_zip row_to_object_def
        lacks_id_def cell_at_def id_of_def synthesized_id_def show_nat.simps digit_char_def
        upt_conv_Cons)

section \<open>The service\<close>

subsection \<open>Awaiting\<close>

lemma await_Inr: "m st = (Inr x, st') \<Longrightarrow> await m k st = k x st'"
  by (simp add: await_def)

lemma await_Inl: "m st = (Inl e, st') \<Longrightarrow> await m k st = (Inl e, st')"
  by (simp add: await_def)

lemma await_lift:
  "await (lift r) k st = (case r of Inl e \<Rightarrow> (Inl e, st) | Inr x \<Rightarrow> k x st)"
  by (simp add: await_def lift_def split: sum.splits)

lemma await_remote:
  "await (remote w req) k st =
     (case respond w (trace st) req of
        Inl e \<Rightarrow> (Inl e, st\<lparr>trace := trace st @ [req]\<rparr>)
      | Inr v \<Rightarrow> k v (st\<lparr>trace := trace st @ [req]\<rparr>))"
  by (simp add: await_def remote_def split: sum.splits)

subsection \<open>What \<open>ensureGapiClient\<close> does to the state\<close>

lemma ensureGapiClient_ready: "gapiInited st \<Longrightarrow> ensureGapiClient w st = (Inr (), st)"
  by (simp add: ensureGapiClient_def return_def)

lemma ensureGapiClient_trace:
  assumes "ensureGapiClient w st = (r, st')"
  shows "\<exists>reqs. trace st' = trace st @ reqs \<and> list_all is_bootstrap reqs"
  using assms
  by (auto simp: ensureGapiClient_def loadGapiScript_def return_def throw_def await_def remote_def
        is_bootstrap_def is_script_load_def is_gapi_load_def is_client_init_def
      split: if_splits sum.splits prod.splits)

lemma ensureGapiClient_ok:
  "ensureGapiClient w st = (Inr u, st') \<Longrightarrow> gapiInited st'"
  by (auto simp: ensureGapiClient_def loadGapiScript_def return_def throw_def await_def remote_def
      split: if_splits sum.splits prod.splits)

lemma ensureGapiClient_accessToken:
  "ensureGapiClient w st = (r, st') \<Longrightarrow> accessToken st' = accessToken st"
  by (auto simp: ensureGapiClient_def loadGapiScript_def return_def throw_def await_def remote_def
      split: if_splits sum.splits prod.splits)

lemma ensureGisClient_accessToken:
  "ensureGisClient w st = (r, st') \<Longrightarrow> accessToken st' = accessToken st"
  by (auto simp: ensureGisClient_def loadGisScript_def return_def throw_def await_def remote_def
      split: if_splits sum.splits prod.splits)

lemma count_requests_append:
  "count_requests P (xs @ ys) = count_requests P xs + count_requests P ys"
  by (simp add: count_requests_def)

lemma bootstrap_no_update: "list_all is_bootstrap reqs \<Longrightarrow> count_requests is_sheets_update reqs = 0"
  by (induction reqs)
     (auto simp: count_requests_def is_bootstrap_def is_sheets_update_def is_script_load_def
        is_gapi_load_def is_client_init_def split: request.splits)

lemma bootstrap_no_insert: "list_all is_bootstrap reqs \<Longrightarrow> count_requests is_calendar_insert reqs = 0"
  by (induction reqs)
     (auto simp: count_requests_def is_bootstrap_def is_calendar_insert_def is_script_load_def
        is_gapi_load_def is_client_init_def split: request.splits)

subsection \<open>\<open>initClient\<close>\<close>

text \<open>
  Claim C8. \<open>initClient\<close> never throws: it returns \<open>false\<close> whenever one of the two
  initialisations fails, and otherwise whether an access token is held.
\<close>
theorem initClient_never_throws:
  "fst (initClient w st) =
     Inr (case fst (await (ensureGapiClient w) (\<lambda>_. ensureGisClient w) st) of
            Inl err \<Rightarrow> False
          | Inr u \<Rightarrow> truthy (runtime w) (accessToken st))"
proof -
  obtain r1 st1 where g: "ensureGapiClient w st = (r1, st1)" by (cases "ensureGapiClient w st")
  obtain r2 st2 where h: "ensureGisClient w st1 = (r2, st2)" by (cases "ensureGisClient w st1")
  have a: "accessToken st2 = accessToken st"
    using ensureGapiClient_accessToken [OF g] ensureGisClient_accessToken [OF h] by simp
  show ?thesis
    using g h a
    by (cases r1; cases r2) (simp_all add: initClient_def await_def return_def)
qed

theorem initClient_never_throws_witness:
  "fst (initClient demo_world signed_in) = Inr True
   \<and> fst (initClient demo_world fresh) = Inr False
   \<and> fst (initClient unconfigured_world fresh) = Inr False"
proof -
  have a: "await (ensureGapiClient demo_world) (\<lambda>_. ensureGisClient demo_world) signed_in
             = (Inr (), signed_in)"
    by (simp add: await_def ensureGapiClient_def ensureGisClient_def return_def truthy_def
          signed_in_def ready_def fresh_def)
  have b: "fst (await (ensureGapiClient unconfigured_world) (\<lambda>_. ensureGisClient unconfigured_world) fresh)
             = Inl (JsError ''Missing CLIENT_ID or API_KEY'')"
    by (simp add: await_def ensureGapiClient_def throw_def unset_def
          unconfigured_world_def demo_world_def fresh_def)
  have t: "truthy (runtime demo_world) (accessToken signed_in)"
    by (simp add: truthy_def signed_in_def)
  have f: "\<not> truthy (runtime demo_world) (accessToken fresh)"
    by (simp add: truthy_def fresh_def)
  have 1: "fst (initClient demo_world signed_in) = Inr True"
    using initClient_never_throws [of demo_world signed_in] a t by simp
  have 2: "fst (initClient demo_world fresh) = Inr False"
    using initClient_never_throws [of demo_world fresh] f by (simp split: sum.splits)
  have 3: "fst (initClient unconfigured_world fresh) = Inr False"
    using initClient_never_throws [of unconfigured_world fresh] b by simp
  from 1 2 3 show ?thesis by blast
qed

subsection \<open>\<open>syncToSheet\<close> with nothing to write\<close>

lemma syncToSheet_no_rows:
  assumes "\<not> Array_isArray dataArray \<or> dataArray = Arr []"
  shows "syncToSheet w sheetName dataArray =
           await (ensureGapiClient w) (\<lambda>_.
             await (remote w (SheetsClear (SPREADSHEET_ID w) (sheetName @ ''!A:Z''))) (\<lambda>_.
             return success_result))"
  using assms by (cases dataArray) (auto simp: syncToSheet_def Array_isArray_def)

lemma syncToSheet_no_rows_ok:
  assumes "\<not> Array_isArray dataArray \<or> dataArray = Arr []"
    and "ensureGapiClient w st = (Inr (), st1)"
  shows "syncToSheet w sheetName dataArray st =
           (case respond w (trace st1) (SheetsClear (SPREADSHEET_ID w) (sheetName @ ''!A:Z'')) of
              Inl e \<Rightarrow> Inl e | Inr v \<Rightarrow> Inr success_result,
            st1\<lparr>trace := trace st1 @ [SheetsClear (SPREADSHEET_ID w) (sheetName @ ''!A:Z'')]\<rparr>)"
  using assms(2)
  by (simp add: syncToSheet_no_rows [OF assms(1)] await_Inr await_remote return_def split: sum.splits)

lemma syncToSheet_no_rows_failed:
  assumes "\<not> Array_isArray dataArray \<or> dataArray = Arr []"
    and "ensureGapiClient w st = (Inl e, st1)"
  shows "syncToSheet w sheetName dataArray st = (Inl e, st1)"
  using assms(2) by (simp add: syncToSheet_no_rows [OF assms(1)] await_Inl)

lemma syncToSheet_no_rows_no_update:
  assumes "\<not> Array_isArray dataArray \<or> dataArray = Arr []"
  shows "count_requests is_sheets_update (trace (snd (syncToSheet w sheetName dataArray st)))
           = count_requests is_sheets_update (trace st)"
proof -
  obtain r st1 where b: "ensureGapiClient w st = (r, st1)" by (cases "ensureGapiClient w st")
  then obtain reqs where t: "trace st1 = trace st @ reqs" and bs: "list_all is_bootstrap reqs"
    using ensureGapiClient_trace by blast
  have c1: "count_requests is_sheets_update (trace st1) = count_requests is_sheets_update (trace st)"
    using t bs by (simp add: count_requests_append bootstrap_no_update)
  show ?thesis
  proof (cases r)
    case (Inl e)
    with b c1 show ?thesis by (simp add: syncToSheet_no_rows_failed [OF assms])
  next
    case (Inr u)
    with b c1 show ?thesis
      by (simp add: syncToSheet_no_rows_ok [OF assms] count_requests_append)
         (simp add: count_requests_def is_sheets_update_def)
  qed
qed

lemma written_grid_append:
  "written_grid sheetName grid (xs @ ys) = written_grid sheetName (written_grid sheetName grid xs) ys"
  by (induction sheetName grid xs rule: written_grid.induct) simp_all

text \<open>
  Claim C3. Called with an empty collection, \<open>syncToSheet\<close> never issues an update, so
  neither a header row nor a data row is written; and once the API client is initialised
  the one request it makes is the clear of the range A:Z of the sheet, which leaves the
  written grid empty.
\<close>
theorem syncToSheet_empty_collection:
  "count_requests is_sheets_update (trace (snd (syncToSheet w sheetName (Arr []) st)))
     = count_requests is_sheets_update (trace st)
   \<and> (\<forall>st1. ensureGapiClient w st = (Inr (), st1) \<longrightarrow>
         snd (syncToSheet w sheetName (Arr []) st)
           = st1\<lparr>trace := trace st1 @ [SheetsClear (SPREADSHEET_ID w) (sheetName @ ''!A:Z'')]\<rparr>
         \<and> written_grid sheetName grid (trace (snd (syncToSheet w sheetName (Arr []) st))) = [])"
proof (intro conjI allI impI)
  show "count_requests is_sheets_update (trace (snd (syncToSheet w sheetName (Arr []) st)))
          = count_requests is_sheets_update (trace st)"
    by (rule syncToSheet_no_rows_no_update) simp
next
  fix st1 assume b: "ensureGapiClient w st = (Inr (), st1)"
  have e: "\<not> Array_isArray (Arr [] :: 'a jsval) \<or> (Arr [] :: 'a jsval) = Arr []" by simp
  show s: "snd (syncToSheet w sheetName (Arr []) st)
          = st1\<lparr>trace := trace st1 @ [SheetsClear (SPREADSHEET_ID w) (sheetName @ ''!A:Z'')]\<rparr>"
    by (simp add: syncToSheet_no_rows_ok [OF e b])
  show "written_grid sheetName grid (trace (snd (syncToSheet w sheetName (Arr []) st))) = []"
    by (simp add: s written_grid_append)
qed

theorem syncToSheet_empty_collection_witness:
  "ensureGapiClient demo_world ready = (Inr (), ready)
   \<and> syncToSheet demo_world ''projects'' (Arr []) ready
       = (Inr success_result, ready\<lparr>trace := [SheetsClear (Some ''sheet'') ''projects!A:Z'']\<rparr>)
   \<and> written_grid ''projects'' [[''id''], [''7'']]
        (trace (snd (syncToSheet demo_world ''projects'' (Arr []) ready))) = []"
proof -
  have b: "ensureGapiClient demo_world ready = (Inr (), ready)"
    by (simp add: ensureGapiClient_ready ready_def)
  have r: "fst (syncToSheet demo_world ''projects'' (Arr []) ready) = Inr success_result"
    by (subst syncToSheet_no_rows_ok [OF _ b]) (simp_all add: demo_world_def)
  from syncToSheet_empty_collection [of demo_world "''projects''" ready "[[''id''], [''7'']]"] b r
  show ?thesis
    by (simp add: prod_eq_iff) (simp add: ready_def fresh_def demo_world_def)
qed

text \<open>
  Claim C10. An argument that is not an array is treated as the empty collection: the call
  is the call with \<open>[]\<close>, it issues no update, and with the client initialised and the
  clear accepted it returns the success result after a clear of the range A:Z.
\<close>
theorem syncToSheet_non_array:
  assumes "\<not> Array_isArray dataArray"
  shows "syncToSheet w sheetName dataArray st = syncToSheet w sheetName (Arr []) st
    \<and> count_requests is_sheets_update (trace (snd (syncToSheet w sheetName dataArray st)))
           = count_requests is_sheets_update (trace st)
    \<and> (\<forall>st1 v. ensureGapiClient w st = (Inr (), st1) \<and>
         respond w (trace st1) (SheetsClear (SPREADSHEET_ID w) (sheetName @ ''!A:Z'')) = Inr v \<longrightarrow>
         syncToSheet w sheetName dataArray st
           = (Inr success_result,
              st1\<lparr>trace := trace st1 @ [SheetsClear (SPREADSHEET_ID w) (sheetName @ ''!A:Z'')]\<rparr>))"
proof -
  from assms have a: "\<not> Array_isArray dataArray \<or> dataArray = Arr []" by simp
  have e: "\<not> Array_isArray (Arr [] :: 'a jsval) \<or> (Arr [] :: 'a jsval) = Arr []" by simp
  have 1: "syncToSheet w sheetName dataArray st = syncToSheet w sheetName (Arr []) st"
    by (simp add: syncToSheet_no_rows [OF a] syncToSheet_no_rows [OF e])
  have 2: "count_requests is_sheets_update (trace (snd (syncToSheet w sheetName dataArray st)))
           = count_requests is_sheets_update (trace st)"
    by (rule syncToSheet_no_rows_no_update [OF a])
  have 3: "syncToSheet w sheetName dataArray st
           = (Inr success_result,
              st1\<lparr>trace := trace st1 @ [SheetsClear (SPREADSHEET_ID w) (sheetName @ ''!A:Z'')]\<rparr>)"
    if "ensureGapiClient w st = (Inr (), st1)"
      and "respond w (trace st1) (SheetsClear (SPREADSHEET_ID w) (sheetName @ ''!A:Z'')) = Inr v"
    for st1 v
    using that by (simp add: syncToSheet_no_rows_ok [OF a])
  from 1 2 3 show ?thesis by blast
qed

theorem syncToSheet_non_array_witness:
  "\<not> Array_isArray (Null :: int jsval)
   \<and> ensureGapiClient demo_world ready = (Inr (), ready)
   \<and> respond demo_world (trace ready) (SheetsClear (SPREADSHEET_ID demo_world) (''projects'' @ ''!A:Z''))
       = Inr (Obj [(''result'', Obj [])])
   \<and> syncToSheet demo_world ''projects'' Null ready
       = (Inr success_result, ready\<lparr>trace := [SheetsClear (Some ''sheet'') ''projects!A:Z'']\<rparr>)"
proof -
  have a: "\<not> Array_isArray (Null :: int jsval)" by (simp add: Array_isArray_def)
  have b: "ensureGapiClient demo_world ready = (Inr (), ready)"
    by (simp add: ensureGapiClient_ready ready_def)
  have c: "respond demo_world (trace ready) (SheetsClear (SPREADSHEET_ID demo_world) (''projects'' @ ''!A:Z''))
       = Inr (Obj [(''result'', Obj [])])"
    by (simp add: demo_world_def)
  have d: "syncToSheet demo_world ''projects'' Null ready
       = (Inr success_result,
          ready\<lparr>trace := trace ready @
             [SheetsClear (SPREADSHEET_ID demo_world) (''projects'' @ ''!A:Z'')]\<rparr>)"
    using syncToSheet_non_array [OF a, of demo_world "''projects''" ready] b c by blast
  have e: "ready\<lparr>trace := trace ready @
             [SheetsClear (SPREADSHEET_ID demo_world) (''projects'' @ ''!A:Z'')]\<rparr>
         = ready\<lparr>trace := [SheetsClear (Some ''sheet'') ''projects!A:Z'']\<rparr>"
    by (simp add: ready_def fresh_def demo_world_def)
  from a b c d [unfolded e] show ?thesis by blast
qed

subsection \<open>Writing a collection and reading it back\<close>

lemma set_foldl_insert_new:
  "set (foldl (\<lambda>acc x. if x \<in> set acc then acc else acc @ [x]) acc xs) = set acc \<union> set xs"
  by (induction xs arbitrary: acc) auto

lemma set_Set_from: "set (Set_from xs) = set xs"
  by (simp add: Set_from_def set_foldl_insert_new)

lemma set_allKeys:
  "set (allKeys rt values) = (\<Union>item\<in>set values. set (Object_keys rt (or_empty_object rt item)))"
  by (simp add: allKeys_def set_Set_from)

lemma header_forEach_cells:
  assumes "\<And>j. j < length keys \<Longrightarrow> cell_at row (i + j) = f (keys ! j)"
  shows "map_of (header_forEach keys i row obj) k =
           (if k \<in> set keys \<and> k \<noteq> '''' \<and> k \<noteq> ''__proto__'' then Some (f k) else map_of obj k)"
  using assms
proof (induction keys arbitrary: i obj)
  case Nil
  then show ?case by simp
next
  case (Cons key keys)
  have head: "cell_at row i = f key" using Cons.prems [of 0] by simp
  have tail: "\<And>j. j < length keys \<Longrightarrow> cell_at row (Suc i + j) = f (keys ! j)"
    using Cons.prems [of "Suc _"] by simp
  show ?case
    by (auto simp: Cons.IH [OF tail] head update_conv')
qed

lemma header_forEach_written_row:
  "map_of (header_forEach keys 0 (map f keys) []) k =
     (if k \<in> set keys \<and> k \<noteq> '''' \<and> k \<noteq> ''__proto__'' then Some (f k) else None)"
  by (subst header_forEach_cells [where f = f]) (simp_all add: cell_at_def)

lemma lacks_id_written_row:
  "lacks_id (header_forEach keys 0 (map f keys) []) = (''id'' \<notin> set keys \<or> f ''id'' = '''')"
  by (simp add: lacks_id_def header_forEach_written_row)

lemma row_to_object_written_row:
  "map_of (row_to_object keys s i (map f keys)) k =
     (if k = ''id'' \<and> (''id'' \<notin> set keys \<or> f ''id'' = '''') then Some (synthesized_id s i)
      else if k \<in> set keys \<and> k \<noteq> '''' \<and> k \<noteq> ''__proto__'' then Some (f k)
      else None)"
  by (simp add: row_to_object_def Let_def lacks_id_written_row update_conv' header_forEach_written_row)

lemma read_sheet_rows_length:
  "length (sheetValuesToObjects (Some (sheet_rows rt values)) s) = length values"
  by (simp add: sheet_rows_def Let_def sheetValuesToObjects_length)

lemma read_sheet_rows_nth:
  assumes "i < length values"
  shows "map_of (sheetValuesToObjects (Some (sheet_rows rt values)) s ! i) k =
     (if k = ''id'' \<and> (''id'' \<notin> set (allKeys rt values) \<or> cell_text rt (values ! i) ''id'' = '''')
      then Some (synthesized_id s i)
      else if k \<in> set (allKeys rt values) \<and> k \<noteq> '''' \<and> k \<noteq> ''__proto__''
      then Some (cell_text rt (values ! i) k)
      else None)"
  using assms
  by (simp add: sheet_rows_def Let_def sheetValuesToObjects_nth row_to_object_written_row)

lemma syncToSheet_rows_ok:
  assumes "ensureGapiClient w st = (Inr (), st1)" and "values \<noteq> []"
    and "respond w (trace st1) (SheetsClear (SPREADSHEET_ID w) (sheetName @ ''!A:Z'')) = Inr c"
    and "respond w (trace st1 @ [SheetsClear (SPREADSHEET_ID w) (sheetName @ ''!A:Z'')])
           (SheetsUpdate (SPREADSHEET_ID w) (sheetName @ ''!A1'') ''RAW''
              (sheet_rows (runtime w) values)) = Inr res"
  shows "syncToSheet w sheetName (Arr values) st
           = (prop_of res ''result'',
              st1\<lparr>trace := trace st1 @
                [SheetsClear (SPREADSHEET_ID w) (sheetName @ ''!A:Z''),
                 SheetsUpdate (SPREADSHEET_ID w) (sheetName @ ''!A1'') ''RAW''
                   (sheet_rows (runtime w) values)]\<rparr>)"
  using assms by (simp add: syncToSheet_def await_Inr Let_def await_remote)

lemma syncToSheet_written:
  assumes "syncToSheet w sheetName (Arr values) st = (Inr r, st')"
  shows "written_grid sheetName grid (trace st') =
           (if values = [] then [] else sheet_rows (runtime w) values)"
proof -
  from assms obtain pre where
    "trace st' = pre @
       (if values = [] then [SheetsClear (SPREADSHEET_ID w) (sheetName @ ''!A:Z'')]
        else [SheetsClear (SPREADSHEET_ID w) (sheetName @ ''!A:Z''),
              SheetsUpdate (SPREADSHEET_ID w) (sheetName @ ''!A1'') ''RAW''
                (sheet_rows (runtime w) values)])"
    by (auto simp: syncToSheet_def await_def remote_def return_def Let_def
          split: prod.splits sum.splits if_splits)
  then show ?thesis by (simp add: written_grid_append)
qed

text \<open>The cell of a field the record has holds the text of the field's value.\<close>

lemma cell_text_own:
  "map_of kvs k = Some v \<Longrightarrow> cell_text rt (Obj kvs) k = value_text rt v"
  by (simp add: cell_text_def optional_member_def own_member_def)

lemma map_of_spec_projection:
  assumes "list_all primitive_serializable (field_values (Obj kvs))"
  shows "map_of (spec_projection rt (Obj kvs)) k = map_option (value_text rt) (map_of kvs k)"
proof -
  from assms have "filter (\<lambda>(k, v). primitive_serializable v) kvs = kvs"
    by (auto simp: field_values_def list_all_iff intro!: filter_True)
  then show ?thesis by (simp add: spec_projection_def map_of_map)
qed

lemma same_record_iff: "same_record a b \<longleftrightarrow> map_of a = map_of b"
proof
  assume s: "same_record a b"
  show "map_of a = map_of b"
  proof
    fix k
    show "map_of a k = map_of b k"
    proof (cases "k \<in> fst ` set a \<union> fst ` set b")
      case True
      with s show ?thesis by (auto simp: same_record_def list_all_iff)
    next
      case False
      then have "map_of a k = None" and "map_of b k = None"
        by (simp_all add: map_of_eq_None_iff)
      then show ?thesis by simp
    qed
  qed
next
  assume "map_of a = map_of b"
  then show "same_record a b" by (simp add: same_record_def list_all_iff)
qed

lemma read_sheet_rows_projection:
  assumes i: "i < length values"
    and rec: "is_record (values ! i)"
    and keys: "set (Object_keys rt (values ! i)) = set (allKeys rt values)"
    and ident: "''id'' \<in> set (Object_keys rt (values ! i))"
               "cell_text rt (values ! i) ''id'' \<noteq> ''''"
    and ser: "list_all primitive_serializable (field_values (values ! i))"
    and nonempty: "'''' \<notin> set (allKeys rt values)"
    and noproto: "''__proto__'' \<notin> set (allKeys rt values)"
  shows "same_record (sheetValuesToObjects (Some (sheet_rows rt values)) s ! i)
           (spec_projection rt (values ! i))"
proof -
  let ?obj = "sheetValuesToObjects (Some (sheet_rows rt values)) s ! i"
  from rec obtain kvs where v: "values ! i = Obj kvs"
    by (cases "values ! i") (simp_all add: is_record_def)
  have ks: "fst ` set kvs = set (allKeys rt values)"
    using keys by (simp add: v Object_keys_def)
  have idk: "''id'' \<in> set (allKeys rt values)" using ident(1) keys by simp
  have "map_of ?obj k = map_of (spec_projection rt (values ! i)) k" for k
  proof (cases "k \<in> set (allKeys rt values)")
    case True
    with ks have "k \<in> fst ` set kvs" by simp
    then have "map_of kvs k \<noteq> None" by (simp add: map_of_eq_None_iff)
    then obtain x where x: "map_of kvs k = Some x" by blast
    have "map_of ?obj k = Some (cell_text rt (values ! i) k)"
      using read_sheet_rows_nth [OF i, of rt s k] True idk ident(2) nonempty noproto by auto
    moreover have "cell_text rt (values ! i) k = value_text rt x"
      using x by (simp add: v cell_text_own)
    moreover have "map_of (spec_projection rt (values ! i)) k = Some (value_text rt x)"
      using ser x by (simp add: v map_of_spec_projection)
    ultimately show ?thesis by simp
  next
    case False
    with ks have "k \<notin> fst ` set kvs" by simp
    then have n: "map_of kvs k = None" by (simp add: map_of_eq_None_iff)
    have "map_of ?obj k = None"
      using read_sheet_rows_nth [OF i, of rt s k] False idk by auto
    moreover have "map_of (spec_projection rt (values ! i)) k = None"
      using ser n by (simp add: v map_of_spec_projection)
    ultimately show ?thesis by simp
  qed
  then show ?thesis by (auto simp: same_record_iff)
qed

lemma read_sheet_rows_law:
  assumes "\<forall>item\<in>set values.
             is_record item \<and> set (Object_keys rt item) = set (allKeys rt values)
             \<and> ''id'' \<in> set (Object_keys rt item) \<and> cell_text rt item ''id'' \<noteq> ''''
             \<and> list_all primitive_serializable (field_values item)"
    and "'''' \<notin> set (allKeys rt values)"
    and "''__proto__'' \<notin> set (allKeys rt values)"
  shows "spec_roundtrip_law rt values (sheetValuesToObjects (Some (sheet_rows rt values)) s)"
proof -
  let ?objs = "sheetValuesToObjects (Some (sheet_rows rt values)) s"
  have len: "length ?objs = length values" by (rule read_sheet_rows_length)
  have p: "same_record (?objs ! i) (spec_projection rt (values ! i))" if "i < length values" for i
  proof -
    from that have "values ! i \<in> set values" by (rule nth_mem)
    with assms(1) have
      a: "is_record (values ! i)"
      and b: "set (Object_keys rt (values ! i)) = set (allKeys rt values)"
      and c: "''id'' \<in> set (Object_keys rt (values ! i))"
      and d: "cell_text rt (values ! i) ''id'' \<noteq> ''''"
      and e: "list_all primitive_serializable (field_values (values ! i))"
      by blast+
    show ?thesis by (rule read_sheet_rows_projection [OF that a b c d e assms(2) assms(3)])
  qed
  have 1: "list_ex (\<lambda>item. same_record obj (spec_projection rt item)) values"
    if "obj \<in> set ?objs" for obj
  proof -
    from that len obtain i where "i < length values" "obj = ?objs ! i"
      by (metis in_set_conv_nth)
    with p [of i] show ?thesis by (auto simp: list_ex_iff intro: nth_mem)
  qed
  have 2: "list_ex (\<lambda>obj. same_record obj (spec_projection rt item)) ?objs"
    if "item \<in> set values" for item
  proof -
    from that obtain i where "i < length values" "item = values ! i"
      by (metis in_set_conv_nth)
    with p [of i] len show ?thesis by (auto simp: list_ex_iff intro!: bexI [of _ "?objs ! i"])
  qed
  from 1 2 show ?thesis by (simp add: spec_roundtrip_law_def list_all_iff)
qed

text \<open>
  The model follows the code on the members a value has without their being its own
  fields. A record without a field named \<open>constructor\<close> is written with the text of
  the inherited member in that column; an item that is a text is written with its
  characters and, in a column \<open>length\<close>, its length; and a header cell
  \<open>__proto__\<close> gives no field when the grid is read.
\<close>

lemma sheet_rows_inherited_member:
  "sheet_rows demo_runtime branded_projects
     = [[''constructor'', ''id''],
        [''ACME'', ''1''],
        [''function Object() { [native code] }'', ''2'']]"
  by (simp add: sheet_rows_def allKeys_def Set_from_def Object_keys_def or_empty_object_def
        truthy_def cell_text_def optional_member_def own_member_def value_text_def js_String_def
        branded_projects_def demo_runtime_def Let_def)

lemma sheet_rows_text_item:
  "sheet_rows demo_runtime [Str ''ab'', Obj [(''length'', Num 5)]]
     = [[''0'', ''1'', ''length''], [''a'', ''b'', ''2''], ['''', '''', ''5'']]"
  by (simp add: sheet_rows_def allKeys_def Set_from_def Object_keys_def or_empty_object_def
        truthy_def cell_text_def optional_member_def own_member_def value_text_def js_String_def
        demo_runtime_def show_nat.simps digit_char_def Let_def)

lemma header_forEach_proto:
  "header_forEach [''__proto__'', ''id''] 0 [''p'', ''1''] [] = [(''id'', ''1'')]"
  by (simp add: cell_at_def)

text \<open>
  The round-trip law is two-sided: a reader that drops the fields of every record does
  not satisfy it.
\<close>

lemma spec_roundtrip_law_keeps_fields:
  "\<not> spec_roundtrip_law demo_runtime uniform_projects [[], []]"
  by (simp add: spec_roundtrip_law_def same_record_def spec_projection_def uniform_projects_def
        primitive_serializable_def)

text \<open>The sample collections, written on a page whose client is initialised.\<close>

lemma syncToSheet_demo:
  assumes "values \<noteq> []"
  shows "syncToSheet demo_world ''projects'' (Arr values) ready
     = (Inr (Obj []),
        ready\<lparr>trace := [SheetsClear (Some ''sheet'') ''projects!A:Z'',
                         SheetsUpdate (Some ''sheet'') ''projects!A1'' ''RAW''
                           (sheet_rows demo_runtime values)]\<rparr>)"
proof -
  have b: "ensureGapiClient demo_world ready = (Inr (), ready)"
    by (simp add: ensureGapiClient_ready ready_def)
  have c: "respond demo_world (trace ready)
             (SheetsClear (SPREADSHEET_ID demo_world) (''projects'' @ ''!A:Z''))
           = Inr (Obj [(''result'', Obj [])])"
    by (simp add: demo_world_def)
  have u: "respond demo_world
             (trace ready @ [SheetsClear (SPREADSHEET_ID demo_world) (''projects'' @ ''!A:Z'')])
             (SheetsUpdate (SPREADSHEET_ID demo_world) (''projects'' @ ''!A1'') ''RAW''
                (sheet_rows (runtime demo_world) values))
           = Inr (Obj [(''result'', Obj [])])"
    by (simp add: demo_world_def)
  show ?thesis
    by (simp add: syncToSheet_rows_ok [OF b assms c u])
       (simp add: demo_world_def prop_of_def get_prop_def ready_def fresh_def)
qed

lemma written_demo:
  assumes "values \<noteq> []"
  shows "written_grid ''projects'' []
           (trace (snd (syncToSheet demo_world ''projects'' (Arr values) ready)))
         = sheet_rows demo_runtime values"
  by (simp add: syncToSheet_demo [OF assms])

lemma mixed_projects_rows:
  "sheet_rows demo_runtime mixed_projects
     = [[''id'', ''name'', ''budget''], [''p-7'', ''Loft'', ''''], ['''', ''Attic'', ''120000'']]"
  by (simp add: sheet_rows_def allKeys_def Set_from_def Object_keys_def or_empty_object_def
        truthy_def cell_text_def optional_member_def own_member_def value_text_def js_String_def
        mixed_projects_def demo_runtime_def show_nat.simps digit_char_def Let_def)

lemma padded_projects_rows:
  "sheet_rows demo_runtime padded_projects
     = [[''id'', ''name'', ''status''], [''p-1'', ''Loft'', ''done''], [''p-2'', ''Attic'', '''']]"
  by (simp add: sheet_rows_def allKeys_def Set_from_def Object_keys_def or_empty_object_def
        truthy_def cell_text_def optional_member_def own_member_def value_text_def js_String_def
        padded_projects_def demo_runtime_def Let_def)

text \<open>
  Claim C1, as the code has it. When \<open>syncToSheet\<close> has written a collection, reading
  the written grid back gives one record per original record, in order. Its fields are the
  keys of the union of the keys of all records, the empty key and \<open>__proto__\<close> apart,
  each holding the text of the cell written for the original under that key (the text of
  the original's value; the empty text for \<open>null\<close>, \<open>undefined\<close> and for a key the
  original neither has nor inherits), and an \<open>id\<close>, which is the synthesized identifier
  whenever that text is empty or no record has the key. When all records are objects with
  the same keys, neither empty nor \<open>__proto__\<close> and \<open>id\<close> among them, and every
  value is primitive-serializable and the text of every identifier is not empty, the
  collection read back satisfies the round-trip law of the specification.
\<close>
theorem syncToSheet_roundtrip:
  assumes "syncToSheet w sheetName (Arr values) st = (Inr r, st')"
  shows "length (sheetValuesToObjects (Some (written_grid sheetName grid (trace st'))) sheetName)
           = length values
    \<and> (\<forall>i<length values. \<forall>k.
          map_of (sheetValuesToObjects (Some (written_grid sheetName grid (trace st'))) sheetName ! i) k
            = (if k = ''id'' \<and> (''id'' \<notin> set (allKeys (runtime w) values)
                                 \<or> cell_text (runtime w) (values ! i) ''id'' = '''')
               then Some (synthesized_id sheetName i)
               else if k \<in> set (allKeys (runtime w) values) \<and> k \<noteq> '''' \<and> k \<noteq> ''__proto__''
               then Some (cell_text (runtime w) (values ! i) k)
               else None))
    \<and> set (allKeys (runtime w) values)
         = (\<Union>item\<in>set values. set (Object_keys (runtime w) (or_empty_object (runtime w) item)))
    \<and> ((\<forall>item\<in>set values.
            is_record item \<and> set (Object_keys (runtime w) item) = set (allKeys (runtime w) values)
            \<and> ''id'' \<in> set (Object_keys (runtime w) item)
            \<and> cell_text (runtime w) item ''id'' \<noteq> ''''
            \<and> list_all primitive_serializable (field_values item))
         \<and> '''' \<notin> set (allKeys (runtime w) values)
         \<and> ''__proto__'' \<notin> set (allKeys (runtime w) values)
         \<longrightarrow> spec_roundtrip_law (runtime w) values
               (sheetValuesToObjects (Some (written_grid sheetName grid (trace st'))) sheetName))"
proof (cases "values = []")
  case True
  then show ?thesis
    by (simp add: syncToSheet_written [OF assms] sheetValuesToObjects_def allKeys_def Set_from_def
          spec_roundtrip_law_def)
next
  case False
  then have g: "written_grid sheetName grid (trace st') = sheet_rows (runtime w) values"
    by (simp add: syncToSheet_written [OF assms])
  show ?thesis
    unfolding g
  proof (intro conjI allI impI)
    show "length (sheetValuesToObjects (Some (sheet_rows (runtime w) values)) sheetName)
            = length values"
      by (rule read_sheet_rows_length)
  next
    fix i k
    assume "i < length values"
    then show "map_of (sheetValuesToObjects (Some (sheet_rows (runtime w) values)) sheetName ! i) k
            = (if k = ''id'' \<and> (''id'' \<notin> set (allKeys (runtime w) values)
                                 \<or> cell_text (runtime w) (values ! i) ''id'' = '''')
               then Some (synthesized_id sheetName i)
               else if k \<in> set (allKeys (runtime w) values) \<and> k \<noteq> '''' \<and> k \<noteq> ''__proto__''
               then Some (cell_text (runtime w) (values ! i) k)
               else None)"
      by (rule read_sheet_rows_nth)
  next
    show "set (allKeys (runtime w) values)
         = (\<Union>item\<in>set values. set (Object_keys (runtime w) (or_empty_object (runtime w) item)))"
      by (rule set_allKeys)
  next
    assume "(\<forall>item\<in>set values.
            is_record item \<and> set (Object_keys (runtime w) item) = set (allKeys (runtime w) values)
            \<and> ''id'' \<in> set (Object_keys (runtime w) item)
            \<and> cell_text (runtime w) item ''id'' \<noteq> ''''
            \<and> list_all primitive_serializable (field_values item))
         \<and> '''' \<notin> set (allKeys (runtime w) values)
         \<and> ''__proto__'' \<notin> set (allKeys (runtime w) values)"
    then show "spec_roundtrip_law (runtime w) values
               (sheetValuesToObjects (Some (sheet_rows (runtime w) values)) sheetName)"
      by (intro read_sheet_rows_law) blast+
  qed
qed

theorem syncToSheet_roundtrip_witness:
  "written_grid ''projects'' []
     (trace (snd (syncToSheet demo_world ''projects'' (Arr mixed_projects) ready)))
     = [[''id'', ''name'', ''budget''], [''p-7'', ''Loft'', ''''], ['''', ''Attic'', ''120000'']]
   \<and> length (sheetValuesToObjects
         (Some (written_grid ''projects'' []
           (trace (snd (syncToSheet demo_world ''projects'' (Arr mixed_projects) ready)))))
         ''projects'') = 2
   \<and> map_of ((sheetValuesToObjects
         (Some (written_grid ''projects'' []
           (trace (snd (syncToSheet demo_world ''projects'' (Arr mixed_projects) ready)))))
         ''projects'') ! 0) ''id'' = Some ''p-7''
   \<and> map_of ((sheetValuesToObjects
         (Some (written_grid ''projects'' []
           (trace (snd (syncToSheet demo_world ''projects'' (Arr mixed_projects) ready)))))
         ''projects'') ! 0) ''name'' = Some ''Loft''
   \<and> map_of ((sheetValuesToObjects
         (Some (written_grid ''projects'' []
           (trace (snd (syncToSheet demo_world ''projects'' (Arr mixed_projects) ready)))))
         ''projects'') ! 0) ''budget'' = Some ''''
   \<and> map_of ((sheetValuesToObjects
         (Some (written_grid ''projects'' []
           (trace (snd (syncToSheet demo_world ''projects'' (Arr mixed_projects) ready)))))
         ''projects'') ! 1) ''id'' = Some ''projects-2''
   \<and> map_of ((sheetValuesToObjects
         (Some (written_grid ''projects'' []
           (trace (snd (syncToSheet demo_world ''projects'' (Arr mixed_projects) ready)))))
         ''projects'') ! 1) ''name'' = Some ''Attic''
   \<and> map_of ((sheetValuesToObjects
         (Some (written_grid ''projects'' []
           (trace (snd (syncToSheet demo_world ''projects'' (Arr mixed_projects) ready)))))
         ''projects'') ! 1) ''budget'' = Some ''120000''
   \<and> map_of ((sheetValuesToObjects
         (Some (written_grid ''projects'' []
           (trace (snd (syncToSheet demo_world ''projects'' (Arr mixed_projects) ready)))))
         ''projects'') ! 1) ''status'' = None
   \<and> spec_roundtrip_law demo_runtime uniform_projects (sheetValuesToObjects
         (Some (written_grid ''projects'' []
           (trace (snd (syncToSheet demo_world ''projects'' (Arr uniform_projects) ready)))))
         ''projects'')"
proof -
  let ?M = "(sheetValuesToObjects
        (Some (written_grid ''projects'' []
          (trace (snd (syncToSheet demo_world ''projects'' (Arr mixed_projects) ready)))))
        ''projects'')"
  let ?U = "(sheetValuesToObjects
        (Some (written_grid ''projects'' []
          (trace (snd (syncToSheet demo_world ''projects'' (Arr uniform_projects) ready)))))
        ''projects'')"
  have r: "runtime demo_world = demo_runtime" by (simp add: demo_world_def)
  have nm: "mixed_projects \<noteq> []" by (simp add: mixed_projects_def)
  have nu: "uniform_projects \<noteq> []" by (simp add: uniform_projects_def)
  have sm: "syncToSheet demo_world ''projects'' (Arr mixed_projects) ready
              = (Inr (Obj []), snd (syncToSheet demo_world ''projects'' (Arr mixed_projects) ready))"
    by (simp add: syncToSheet_demo [OF nm])
  have su: "syncToSheet demo_world ''projects'' (Arr uniform_projects) ready
              = (Inr (Obj []), snd (syncToSheet demo_world ''projects'' (Arr uniform_projects) ready))"
    by (simp add: syncToSheet_demo [OF nu])
  have g: "written_grid ''projects'' []
             (trace (snd (syncToSheet demo_world ''projects'' (Arr mixed_projects) ready)))
           = [[''id'', ''name'', ''budget''], [''p-7'', ''Loft'', ''''], ['''', ''Attic'', ''120000'']]"
    by (simp add: written_demo [OF nm] mixed_projects_rows)
  have k: "set (allKeys demo_runtime mixed_projects) = {''id'', ''name'', ''budget''}"
    by (auto simp: set_allKeys mixed_projects_def or_empty_object_def truthy_def Object_keys_def)
  have l: "length mixed_projects = 2" by (simp add: mixed_projects_def)
  have c0: "cell_text demo_runtime (mixed_projects ! 0) ''id'' = ''p-7''"
           "cell_text demo_runtime (mixed_projects ! 0) ''name'' = ''Loft''"
           "cell_text demo_runtime (mixed_projects ! 0) ''budget'' = ''''"
    by (simp_all add: cell_text_def optional_member_def own_member_def value_text_def js_String_def
          mixed_projects_def demo_runtime_def)
  have c1: "cell_text demo_runtime (mixed_projects ! 1) ''id'' = ''''"
           "cell_text demo_runtime (mixed_projects ! 1) ''name'' = ''Attic''"
           "cell_text demo_runtime (mixed_projects ! 1) ''budget'' = ''120000''"
    by (simp_all add: cell_text_def optional_member_def own_member_def value_text_def js_String_def
          mixed_projects_def demo_runtime_def show_nat.simps digit_char_def)
  have i: "synthesized_id ''projects'' 1 = ''projects-2''"
    by (simp add: synthesized_id_def show_nat.simps digit_char_def)
  note t = syncToSheet_roundtrip [OF sm, of "[]", unfolded r]
  from t have len: "length ?M = length mixed_projects" by blast
  from t have m: "\<forall>i<length mixed_projects. \<forall>k.
      map_of (?M ! i) k
        = (if k = ''id'' \<and> (''id'' \<notin> set (allKeys demo_runtime mixed_projects)
                             \<or> cell_text demo_runtime (mixed_projects ! i) ''id'' = '''')
           then Some (synthesized_id ''projects'' i)
           else if k \<in> set (allKeys demo_runtime mixed_projects) \<and> k \<noteq> '''' \<and> k \<noteq> ''__proto__''
           then Some (cell_text demo_runtime (mixed_projects ! i) k)
           else None)"
    by blast
  have m0: "map_of (?M ! 0) k
        = (if k = ''id'' \<and> (''id'' \<notin> set (allKeys demo_runtime mixed_projects)
                             \<or> cell_text demo_runtime (mixed_projects ! 0) ''id'' = '''')
           then Some (synthesized_id ''projects'' 0)
           else if k \<in> set (allKeys demo_runtime mixed_projects) \<and> k \<noteq> '''' \<and> k \<noteq> ''__proto__''
           then Some (cell_text demo_runtime (mixed_projects ! 0) k)
           else None)" for k
    using m l by simp
  have m1: "map_of (?M ! 1) k
        = (if k = ''id'' \<and> (''id'' \<notin> set (allKeys demo_runtime mixed_projects)
                             \<or> cell_text demo_runtime (mixed_projects ! 1) ''id'' = '''')
           then Some (synthesized_id ''projects'' 1)
           else if k \<in> set (allKeys demo_runtime mixed_projects) \<and> k \<noteq> '''' \<and> k \<noteq> ''__proto__''
           then Some (cell_text demo_runtime (mixed_projects ! 1) k)
           else None)" for k
    using m l by simp
  have 0: "map_of (?M ! 0) ''id'' = Some ''p-7''"
          "map_of (?M ! 0) ''name'' = Some ''Loft''"
          "map_of (?M ! 0) ''budget'' = Some ''''"
    by (simp_all add: m0 k c0 del: One_nat_def)
  have 1: "map_of (?M ! 1) ''id'' = Some ''projects-2''"
          "map_of (?M ! 1) ''name'' = Some ''Attic''"
          "map_of (?M ! 1) ''budget'' = Some ''120000''"
          "map_of (?M ! 1) ''status'' = None"
    by (simp_all add: m1 k c1 i del: One_nat_def)
  have ku: "set (allKeys demo_runtime uniform_projects) = {''id'', ''name''}"
    by (auto simp: set_allKeys uniform_projects_def or_empty_object_def truthy_def Object_keys_def)
  have h: "(\<forall>item\<in>set uniform_projects.
            is_record item \<and> set (Object_keys demo_runtime item) = set (allKeys demo_runtime uniform_projects)
            \<and> ''id'' \<in> set (Object_keys demo_runtime item)
            \<and> cell_text demo_runtime item ''id'' \<noteq> ''''
            \<and> list_all primitive_serializable (field_values item))
         \<and> '''' \<notin> set (allKeys demo_runtime uniform_projects)
         \<and> ''__proto__'' \<notin> set (allKeys demo_runtime uniform_projects)"
    by (simp add: ku)
       (auto simp: uniform_projects_def is_record_def Object_keys_def cell_text_def
          optional_member_def own_member_def value_text_def js_String_def
          primitive_serializable_def field_values_def)
  from syncToSheet_roundtrip [OF su, of "[]", unfolded r] h
  have 2: "spec_roundtrip_law demo_runtime uniform_projects ?U"
    by blast
  from g len l 0 1 2 show ?thesis by simp
qed

theorem syncToSheet_roundtrip_counterexample:
  "list_all (\<lambda>item. is_record item \<and> list_all primitive_serializable (field_values item))
     padded_projects
   \<and> sheetValuesToObjects
         (Some (written_grid ''projects'' []
           (trace (snd (syncToSheet demo_world ''projects'' (Arr padded_projects) ready))))) ''projects''
     = [[(''id'', ''p-1''), (''name'', ''Loft''), (''status'', ''done'')],
        [(''id'', ''p-2''), (''name'', ''Attic''), (''status'', '''')]]
   \<and> spec_projection demo_runtime (padded_projects ! 1) = [(''id'', ''p-2''), (''name'', ''Attic'')]
   \<and> \<not> spec_roundtrip_law demo_runtime padded_projects
         [[(''id'', ''p-1''), (''name'', ''Loft''), (''status'', ''done'')],
          [(''id'', ''p-2''), (''name'', ''Attic''), (''status'', '''')]]"
proof -
  have n: "padded_projects \<noteq> []" by (simp add: padded_projects_def)
  have 0: "list_all (\<lambda>item. is_record item \<and> list_all primitive_serializable (field_values item))
     padded_projects"
    by (simp add: padded_projects_def is_record_def field_values_def primitive_serializable_def)
  have 1: "sheetValuesToObjects
             (Some [[''id'', ''name'', ''status''], [''p-1'', ''Loft'', ''done''], [''p-2'', ''Attic'', '''']])
             ''projects''
     = [[(''id'', ''p-1''), (''name'', ''Loft''), (''status'', ''done'')],
        [(''id'', ''p-2''), (''name'', ''Attic''), (''status'', '''')]]"
    by (simp add: sheetValuesToObjects_def enumerate_eq_zip row_to_object_def lacks_id_def
          cell_at_def)
  have 2: "spec_projection demo_runtime (padded_projects ! 1) = [(''id'', ''p-2''), (''name'', ''Attic'')]"
    by (simp add: spec_projection_def padded_projects_def primitive_serializable_def
          value_text_def js_String_def)
  have 3: "\<not> spec_roundtrip_law demo_runtime padded_projects
         [[(''id'', ''p-1''), (''name'', ''Loft''), (''status'', ''done'')],
          [(''id'', ''p-2''), (''name'', ''Attic''), (''status'', '''')]]"
    by (simp add: spec_roundtrip_law_def same_record_def spec_projection_def padded_projects_def
          primitive_serializable_def value_text_def js_String_def)
  from 0 1 2 3 show ?thesis by (simp add: written_demo [OF n] padded_projects_rows)
qed

subsection \<open>\<open>addToCalendar\<close>\<close>

lemma addToCalendar_after_bootstrap:
  assumes "ensureGapiClient w st = (Inr (), st1)"
    and "event \<noteq> Undefined" and "event \<noteq> Null"
    and "\<not> truthy (runtime w) (get_prop event ''title'') \<or> \<not> truthy (runtime w) (get_prop event ''date'')"
  shows "addToCalendar w event st = (Inl (JsError validation_message), st1)"
proof -
  have p: "prop_of event ''title'' = Inr (get_prop event ''title'')"
    using assms(2,3) by (cases event) (simp_all add: prop_of_def)
  show ?thesis
    using assms(1,4)
    by (simp add: addToCalendar_def await_Inr await_lift p Let_def throw_def)
qed

lemma addToCalendar_bootstrap_failed:
  assumes "ensureGapiClient w st = (Inl e, st1)"
  shows "addToCalendar w event st = (Inl e, st1)"
  using assms by (simp add: addToCalendar_def await_Inl)

text \<open>
  Claim C4, as the code has it. For an event whose title or date is missing (absent or
  falsy), \<open>addToCalendar\<close> always fails and never issues a calendar insert; the only
  requests it can make are those of \<open>ensureGapiClient\<close>, which it awaits first. When
  that initialisation completes the failure is the validation error, and on a client that
  is already initialised nothing is requested at all.
\<close>
theorem addToCalendar_validation:
  assumes "event \<noteq> Undefined" and "event \<noteq> Null"
    and "\<not> truthy (runtime w) (get_prop event ''title'') \<or> \<not> truthy (runtime w) (get_prop event ''date'')"
  shows "(\<exists>e. fst (addToCalendar w event st) = Inl e)
    \<and> count_requests is_calendar_insert (trace (snd (addToCalendar w event st)))
         = count_requests is_calendar_insert (trace st)
    \<and> snd (addToCalendar w event st) = snd (ensureGapiClient w st)
    \<and> (\<forall>st1. ensureGapiClient w st = (Inr (), st1) \<longrightarrow>
          addToCalendar w event st = (Inl (JsError validation_message), st1))
    \<and> (gapiInited st \<longrightarrow> addToCalendar w event st = (Inl (JsError validation_message), st))"
proof -
  obtain r st1 where b: "ensureGapiClient w st = (r, st1)" by (cases "ensureGapiClient w st")
  then obtain reqs where t: "trace st1 = trace st @ reqs" and bs: "list_all is_bootstrap reqs"
    using ensureGapiClient_trace by blast
  have c1: "count_requests is_calendar_insert (trace st1) = count_requests is_calendar_insert (trace st)"
    using t bs by (simp add: count_requests_append bootstrap_no_insert)
  have res: "addToCalendar w event st = (case r of Inl e \<Rightarrow> Inl e | Inr u \<Rightarrow> Inl (JsError validation_message), st1)"
  proof (cases r)
    case (Inl e)
    with b show ?thesis by (simp add: addToCalendar_bootstrap_failed)
  next
    case (Inr u)
    with b assms show ?thesis by (simp add: addToCalendar_after_bootstrap)
  qed
  have 1: "\<exists>e. fst (addToCalendar w event st) = Inl e"
    by (cases r) (simp_all add: res)
  have 2: "count_requests is_calendar_insert (trace (snd (addToCalendar w event st)))
         = count_requests is_calendar_insert (trace st)"
    by (simp add: res c1)
  have 3: "snd (addToCalendar w event st) = snd (ensureGapiClient w st)"
    by (simp add: res b)
  have 4: "addToCalendar w event st = (Inl (JsError validation_message), st1')"
    if "ensureGapiClient w st = (Inr (), st1')" for st1'
    using that assms by (simp add: addToCalendar_after_bootstrap)
  have 5: "addToCalendar w event st = (Inl (JsError validation_message), st)" if "gapiInited st"
    using that assms by (simp add: addToCalendar_after_bootstrap ensureGapiClient_ready)
  from 1 2 3 4 5 show ?thesis by blast
qed

theorem addToCalendar_validation_witness:
  "untitled_event \<noteq> Undefined \<and> untitled_event \<noteq> Null
   \<and> \<not> truthy (runtime demo_world) (get_prop untitled_event ''title'')
   \<and> gapiInited ready
   \<and> addToCalendar demo_world untitled_event ready = (Inl (JsError validation_message), ready)"
proof -
  have a: "untitled_event \<noteq> Undefined" "untitled_event \<noteq> Null"
    by (simp_all add: untitled_event_def)
  have t: "\<not> truthy (runtime demo_world) (get_prop untitled_event ''title'')"
    by (simp add: untitled_event_def get_prop_def truthy_def)
  have g: "gapiInited ready" by (simp add: ready_def)
  from addToCalendar_validation [OF a, of demo_world ready] t g a show ?thesis by blast
qed

theorem addToCalendar_validation_counterexample:
  "trace fresh = []
   \<and> fst (addToCalendar demo_world untitled_event fresh) = Inl (JsError validation_message)
   \<and> trace (snd (addToCalendar demo_world untitled_event fresh))
       = [LoadScript ''https://apis.google.com/js/api.js'', GapiLoad ''client'',
          ClientInit (Some ''key'') DISCOVERY_DOCS]
   \<and> addToCalendar unconfigured_world untitled_event fresh
       = (Inl (JsError ''Missing CLIENT_ID or API_KEY''), fresh)"
  by (simp add: addToCalendar_def ensureGapiClient_def loadGapiScript_def await_def remote_def
        return_def throw_def lift_def prop_of_def get_prop_def truthy_def unset_def
        untitled_event_def fresh_def demo_world_def unconfigured_world_def Let_def)

text \<open>
  Claim C5. With the client initialised, an event with a title and a date and no time is
  inserted with the start the runtime parses from the date followed by \<open>10:00\<close>, an end
  3600000 milliseconds later, and the time zone \<open>Asia/Taipei\<close> on both.
\<close>
theorem addToCalendar_default_time:
  assumes "ensureGapiClient w st = (Inr (), st1)"
    and "truthy (runtime w) (get_prop event ''title'')"
    and "truthy (runtime w) (get_prop event ''date'')"
    and "\<not> truthy (runtime w) (get_prop event ''time'')"
    and "Date_parse (runtime w) (js_String (runtime w) (get_prop event ''date'') @ '' 10:00'') = Some t"
    and "\<bar>t\<bar> \<le> 8640000000000000" and "\<bar>t + 3600000\<bar> \<le> 8640000000000000"
  shows "event_start (runtime w) (get_prop event ''date'') (get_prop event ''time'') = Some t
    \<and> snd (addToCalendar w event st)
        = st1\<lparr>trace := trace st1 @
            [CalendarInsert ''primary''
               \<lparr> summary = get_prop event ''title'',
                 description = event_description (runtime w) event,
                 start_dateTime = Date_toISOString (runtime w) t,
                 start_timeZone = ''Asia/Taipei'',
                 end_dateTime = Date_toISOString (runtime w) (t + 3600000),
                 end_timeZone = ''Asia/Taipei'' \<rparr>]\<rparr>"
proof -
  have ne: "event \<noteq> Undefined" "event \<noteq> Null"
    using assms(2) by (auto simp: get_prop_def truthy_def)
  have p: "prop_of event ''title'' = Inr (get_prop event ''title'')"
    using ne by (cases event) (simp_all add: prop_of_def)
  have s: "event_start (runtime w) (get_prop event ''date'') (get_prop event ''time'') = Some t"
    using assms(4,5,6) by (simp add: event_start_def new_Date_text_def TimeClip_def js_String_def)
  have e: "new_Date_ms (map_option (\<lambda>t. t + 3600000) (getTime (Some t))) = Some (t + 3600000)"
    using assms(7) by (simp add: new_Date_ms_def getTime_def TimeClip_def)
  have "snd (addToCalendar w event st)
        = st1\<lparr>trace := trace st1 @
            [CalendarInsert ''primary''
               \<lparr> summary = get_prop event ''title'',
                 description = event_description (runtime w) event,
                 start_dateTime = Date_toISOString (runtime w) t,
                 start_timeZone = ''Asia/Taipei'',
                 end_dateTime = Date_toISOString (runtime w) (t + 3600000),
                 end_timeZone = ''Asia/Taipei'' \<rparr>]\<rparr>"
    using assms(1,2,3)
    by (simp add: addToCalendar_def await_Inr await_lift p Let_def s e toISOString_def
          await_remote lift_def split: sum.splits)
  with s show ?thesis by simp
qed

theorem addToCalendar_default_time_witness:
  "ensureGapiClient demo_world ready = (Inr (), ready)
   \<and> Date_parse (runtime demo_world) ''2025-06-01 10:00'' = Some 1748743200000
   \<and> trace (snd (addToCalendar demo_world survey_event ready))
       = [CalendarInsert ''primary''
            \<lparr> summary = Str survey_title,
              description = [],
              start_dateTime = ''2025-06-01T02:00:00.000Z'',
              start_timeZone = ''Asia/Taipei'',
              end_dateTime = ''2025-06-01T03:00:00.000Z'',
              end_timeZone = ''Asia/Taipei'' \<rparr>]"
proof -
  have b: "ensureGapiClient demo_world ready = (Inr (), ready)"
    by (simp add: ensureGapiClient_ready ready_def)
  have g: "get_prop survey_event ''title'' = Str survey_title"
      "get_prop survey_event ''date'' = Str ''2025-06-01''"
      "get_prop survey_event ''time'' = Undefined"
      "get_prop survey_event ''type'' = Undefined"
    by (simp_all add: survey_event_def get_prop_def)
  have h1: "truthy (runtime demo_world) (get_prop survey_event ''title'')"
    by (simp add: g truthy_def survey_title_def)
  have h2: "truthy (runtime demo_world) (get_prop survey_event ''date'')"
    by (simp add: g truthy_def)
  have h3: "\<not> truthy (runtime demo_world) (get_prop survey_event ''time'')"
    by (simp add: g truthy_def)
  have h4: "Date_parse (runtime demo_world)
              (js_String (runtime demo_world) (get_prop survey_event ''date'') @ '' 10:00'')
            = Some 1748743200000"
    by (simp add: g js_String_def demo_world_def demo_runtime_def)
  have h4': "Date_parse (runtime demo_world) ''2025-06-01 10:00'' = Some 1748743200000"
    by (simp add: demo_world_def demo_runtime_def)
  have "snd (addToCalendar demo_world survey_event ready)
        = ready\<lparr>trace := trace ready @
            [CalendarInsert ''primary''
               \<lparr> summary = get_prop survey_event ''title'',
                 description = event_description (runtime demo_world) survey_event,
                 start_dateTime = Date_toISOString (runtime demo_world) 1748743200000,
                 start_timeZone = ''Asia/Taipei'',
                 end_dateTime = Date_toISOString (runtime demo_world) (1748743200000 + 3600000),
                 end_timeZone = ''Asia/Taipei'' \<rparr>]\<rparr>"
    using addToCalendar_default_time [OF b h1 h2 h3 h4] by simp
  then have "trace (snd (addToCalendar demo_world survey_event ready))
       = [CalendarInsert ''primary''
            \<lparr> summary = Str survey_title,
              description = [],
              start_dateTime = ''2025-06-01T02:00:00.000Z'',
              start_timeZone = ''Asia/Taipei'',
              end_dateTime = ''2025-06-01T03:00:00.000Z'',
              end_timeZone = ''Asia/Taipei'' \<rparr>]"
    by (simp add: g event_description_def truthy_def demo_world_def demo_runtime_def
          ready_def fresh_def)
  with b h4' show ?thesis by blast
qed

subsection \<open>\<open>uploadToDrive\<close>\<close>

lemma uploadToDrive_no_arrayBuffer:
  "uploadToDrive w (NoArrayBuffer v) folderName st =
     (case ensureGapiClient w st of
        (Inl e, st1) \<Rightarrow> (Inl e, st1)
      | (Inr u, st1) \<Rightarrow> (Inr (mock_result w), st1))"
  by (simp add: uploadToDrive_def await_def return_def split: prod.splits sum.splits)

text \<open>
  Claim C6, as the code has it. For an input without an \<open>arrayBuffer\<close> method,
  \<open>uploadToDrive\<close> makes no request beyond those of \<open>ensureGapiClient\<close>, which it
  awaits first: when that completes it returns the mock result (success, and a URL made of
  the fixed prefix and \<open>Date.now()\<close>), with no request at all on a client already
  initialised; when it fails, its error is thrown instead.
\<close>
theorem uploadToDrive_mock:
  "snd (uploadToDrive w (NoArrayBuffer v) folderName st) = snd (ensureGapiClient w st)
   \<and> (\<forall>st1. ensureGapiClient w st = (Inr (), st1) \<longrightarrow>
         uploadToDrive w (NoArrayBuffer v) folderName st = (Inr (mock_result w), st1))
   \<and> (gapiInited st \<longrightarrow>
         uploadToDrive w (NoArrayBuffer v) folderName st = (Inr (mock_result w), st))
   \<and> (\<forall>e st1. ensureGapiClient w st = (Inl e, st1) \<longrightarrow>
         uploadToDrive w (NoArrayBuffer v) folderName st = (Inl e, st1))
   \<and> get_prop (mock_result w) ''success'' = Bool True
   \<and> get_prop (mock_result w) ''url''
       = Str (''https://drive.google.com/file/d/mock-'' @ show_nat (Date_now w))"
proof -
  have 1: "snd (uploadToDrive w (NoArrayBuffer v) folderName st) = snd (ensureGapiClient w st)"
    by (simp add: uploadToDrive_no_arrayBuffer split: prod.splits sum.splits)
  have 2: "uploadToDrive w (NoArrayBuffer v) folderName st = (Inr (mock_result w), st1)"
    if "ensureGapiClient w st = (Inr (), st1)" for st1
    using that by (simp add: uploadToDrive_no_arrayBuffer)
  have 3: "uploadToDrive w (NoArrayBuffer v) folderName st = (Inr (mock_result w), st)"
    if "gapiInited st"
    using that by (simp add: uploadToDrive_no_arrayBuffer ensureGapiClient_ready)
  have 4: "uploadToDrive w (NoArrayBuffer v) folderName st = (Inl e, st1)"
    if "ensureGapiClient w st = (Inl e, st1)" for e st1
    using that by (simp add: uploadToDrive_no_arrayBuffer)
  have 5: "get_prop (mock_result w) ''success'' = Bool True"
    by (simp add: mock_result_def get_prop_def)
  have 6: "get_prop (mock_result w) ''url''
       = Str (''https://drive.google.com/file/d/mock-'' @ show_nat (Date_now w))"
    by (simp add: mock_result_def get_prop_def)
  from 1 2 3 4 5 6 show ?thesis by blast
qed

theorem uploadToDrive_mock_witness:
  "gapiInited ready
   \<and> uploadToDrive demo_world (NoArrayBuffer (Str ''photo.png'')) (Str ''site'') ready
       = (Inr (mock_result demo_world), ready)
   \<and> ensureGapiClient unconfigured_world fresh = (Inl (JsError ''Missing CLIENT_ID or API_KEY''), fresh)
   \<and> uploadToDrive unconfigured_world (NoArrayBuffer (Str ''photo.png'')) (Str ''site'') fresh
       = (Inl (JsError ''Missing CLIENT_ID or API_KEY''), fresh)"
proof -
  have g: "gapiInited ready" by (simp add: ready_def)
  have f: "ensureGapiClient unconfigured_world fresh = (Inl (JsError ''Missing CLIENT_ID or API_KEY''), fresh)"
    by (simp add: ensureGapiClient_def throw_def unset_def fresh_def unconfigured_world_def demo_world_def)
  from uploadToDrive_mock [of demo_world "Str ''photo.png''" "Str ''site''" ready] g
  have a: "uploadToDrive demo_world (NoArrayBuffer (Str ''photo.png'')) (Str ''site'') ready
       = (Inr (mock_result demo_world), ready)" by blast
  from uploadToDrive_mock [of unconfigured_world "Str ''photo.png''" "Str ''site''" fresh] f
  have b: "uploadToDrive unconfigured_world (NoArrayBuffer (Str ''photo.png'')) (Str ''site'') fresh
       = (Inl (JsError ''Missing CLIENT_ID or API_KEY''), fresh)" by blast
  from g a f b show ?thesis by blast
qed

theorem uploadToDrive_mock_counterexample:
  "trace fresh = []
   \<and> trace (snd (uploadToDrive demo_world (NoArrayBuffer Null) (Str ''site'') fresh))
       = [LoadScript ''https://apis.google.com/js/api.js'', GapiLoad ''client'',
          ClientInit (Some ''key'') DISCOVERY_DOCS]
   \<and> uploadToDrive unconfigured_world (NoArrayBuffer Null) (Str ''site'') fresh
       = (Inl (JsError ''Missing CLIENT_ID or API_KEY''), fresh)"
  by (simp add: uploadToDrive_def ensureGapiClient_def loadGapiScript_def await_def remote_def
        return_def throw_def unset_def fresh_def demo_world_def unconfigured_world_def)

section \<open>The token-exchange endpoint\<close>

text \<open>
  Claim C9. A POST whose body lacks one of \<open>code\<close>, \<open>codeVerifier\<close>,
  \<open>redirectUri\<close> (absent, or falsy) is answered 400 \<open>invalid_request\<close>, and a POST
  with all three and without configured credentials is answered 500; in both cases nothing
  is sent to the provider.
\<close>
theorem handler_missing_input:
  assumes "req_method req = ''POST''"
  shows
    "(\<not> truthy (server_runtime srv) (get_prop (or_empty_object (server_runtime srv) (req_body req)) ''code'')
      \<or> \<not> truthy (server_runtime srv) (get_prop (or_empty_object (server_runtime srv) (req_body req)) ''codeVerifier'')
      \<or> \<not> truthy (server_runtime srv) (get_prop (or_empty_object (server_runtime srv) (req_body req)) ''redirectUri'')
      \<longrightarrow> handler srv req =
            (\<lparr>status = 400, headers = cors_headers (req_origin req),
              json_body = Some (Obj [(''error'', Str ''invalid_request''),
                                     (''error_description'',
                                        Str ''Missing code / codeVerifier / redirectUri'')])\<rparr>, []))
   \<and> (truthy (server_runtime srv) (get_prop (or_empty_object (server_runtime srv) (req_body req)) ''code'')
      \<and> truthy (server_runtime srv) (get_prop (or_empty_object (server_runtime srv) (req_body req)) ''codeVerifier'')
      \<and> truthy (server_runtime srv) (get_prop (or_empty_object (server_runtime srv) (req_body req)) ''redirectUri'')
      \<and> (unset (GOOGLE_CLIENT_ID srv) \<or> unset (GOOGLE_CLIENT_SECRET srv))
      \<longrightarrow> handler srv req =
            (\<lparr>status = 500, headers = cors_headers (req_origin req),
              json_body = Some (Obj [(''error'', Str ''server_misconfigured''),
                                     (''error_description'',
                                        Str ''Missing GOOGLE_CLIENT_ID or GOOGLE_CLIENT_SECRET'')])\<rparr>, []))"
  using assms by (simp add: handler_def Let_def error_body_def)

theorem handler_missing_input_witness:
  "req_method post_without_code = ''POST''
   \<and> get_prop (or_empty_object (server_runtime demo_server) (req_body post_without_code)) ''code'' = Undefined
   \<and> handler demo_server post_without_code =
        (\<lparr>status = 400,
          headers = [(''Access-Control-Allow-Origin'', ''http://localhost:5173''), (''Vary'', ''Origin''),
                     (''Access-Control-Allow-Methods'', ''POST, OPTIONS''),
                     (''Access-Control-Allow-Headers'', ''Content-Type'')],
          json_body = Some (Obj [(''error'', Str ''invalid_request''),
                                 (''error_description'',
                                    Str ''Missing code / codeVerifier / redirectUri'')])\<rparr>, [])
   \<and> req_method post_complete = ''POST''
   \<and> unset (GOOGLE_CLIENT_ID demo_server)
   \<and> handler demo_server post_complete =
        (\<lparr>status = 500,
          headers = [(''Access-Control-Allow-Methods'', ''POST, OPTIONS''),
                     (''Access-Control-Allow-Headers'', ''Content-Type'')],
          json_body = Some (Obj [(''error'', Str ''server_misconfigured''),
                                 (''error_description'',
                                    Str ''Missing GOOGLE_CLIENT_ID or GOOGLE_CLIENT_SECRET'')])\<rparr>, [])"
proof -
  have m1: "req_method post_without_code = ''POST''" by (simp add: post_without_code_def)
  have m2: "req_method post_complete = ''POST''" by (simp add: post_complete_def)
  have c: "get_prop (or_empty_object (server_runtime demo_server) (req_body post_without_code)) ''code'' = Undefined"
    by (simp add: post_without_code_def or_empty_object_def truthy_def get_prop_def)
  have u: "unset (GOOGLE_CLIENT_ID demo_server)" by (simp add: demo_server_def unset_def)
  have t: "truthy (server_runtime demo_server) (get_prop (or_empty_object (server_runtime demo_server) (req_body post_complete)) ''code'')"
     "truthy (server_runtime demo_server) (get_prop (or_empty_object (server_runtime demo_server) (req_body post_complete)) ''codeVerifier'')"
     "truthy (server_runtime demo_server) (get_prop (or_empty_object (server_runtime demo_server) (req_body post_complete)) ''redirectUri'')"
    by (simp_all add: post_complete_def or_empty_object_def truthy_def get_prop_def)
  have h1: "cors_headers (req_origin post_without_code)
     = [(''Access-Control-Allow-Origin'', ''http://localhost:5173''), (''Vary'', ''Origin''),
        (''Access-Control-Allow-Methods'', ''POST, OPTIONS''),
        (''Access-Control-Allow-Headers'', ''Content-Type'')]"
    by (simp add: post_without_code_def cors_headers_def allowlist_def)
  have h2: "cors_headers (req_origin post_complete)
     = [(''Access-Control-Allow-Methods'', ''POST, OPTIONS''),
        (''Access-Control-Allow-Headers'', ''Content-Type'')]"
    by (simp add: post_complete_def cors_headers_def allowlist_def)
  have a: "handler demo_server post_without_code =
        (\<lparr>status = 400, headers = cors_headers (req_origin post_without_code),
          json_body = Some (Obj [(''error'', Str ''invalid_request''),
                                 (''error_description'',
                                    Str ''Missing code / codeVerifier / redirectUri'')])\<rparr>, [])"
    using handler_missing_input [OF m1, of demo_server] c by (simp add: truthy_def)
  have b: "handler demo_server post_complete =
        (\<lparr>status = 500, headers = cors_headers (req_origin post_complete),
          json_body = Some (Obj [(''error'', Str ''server_misconfigured''),
                                 (''error_description'',
                                    Str ''Missing GOOGLE_CLIENT_ID or GOOGLE_CLIENT_SECRET'')])\<rparr>, [])"
    using handler_missing_input [OF m2, of demo_server] t u by blast
  from m1 c a [unfolded h1] m2 u b [unfolded h2] show ?thesis by blast
qed

section \<open>Overlapping invocations\<close>

subsection \<open>The program counter runs the same code as \<open>ensureGapiClient\<close>\<close>

lemma resume_by_cases:
  "resume w p r st =
     (case p of
        AwaitScriptTag \<Rightarrow>
          (case r of
             Inl e \<Rightarrow> (Threw e, st)
           | Inr v \<Rightarrow> (AwaitGapiLoad,
                        st\<lparr>window_gapi := True, trace := trace st @ [GapiLoad ''client'']\<rparr>))
      | AwaitScriptPresent \<Rightarrow> (AwaitGapiLoad, st\<lparr>trace := trace st @ [GapiLoad ''client'']\<rparr>)
      | AwaitGapiLoad \<Rightarrow>
          (case r of
             Inl e \<Rightarrow> (Threw e, st)
           | Inr v \<Rightarrow> (AwaitClientInit,
                        st\<lparr>trace := trace st @ [ClientInit (API_KEY w) DISCOVERY_DOCS]\<rparr>))
      | AwaitClientInit \<Rightarrow>
          (case r of Inl e \<Rightarrow> (Threw e, st) | Inr v \<Rightarrow> (Returned, st\<lparr>gapiInited := True\<rparr>))
      | ReturnedEarly \<Rightarrow> (ReturnedEarly, st)
      | Returned \<Rightarrow> (Returned, st)
      | Threw e \<Rightarrow> (Threw e, st))"
  by (cases p; cases r; simp)

lemma run_alone_ensureGapiClient:
  "outcome_of (fst (run_alone w st)) = Some (fst (ensureGapiClient w st))
   \<and> snd (run_alone w st) = snd (ensureGapiClient w st)"
proof (cases "gapiInited st \<or> unset (CLIENT_ID w) \<or> unset (API_KEY w)")
  case True
  then show ?thesis
    by (auto simp: run_alone_def enter_def outcome_of_def ensureGapiClient_def
          return_def throw_def)
next
  case False
  show ?thesis
  proof (cases "window_gapi st")
    case True
    with False show ?thesis
      by (auto simp add: run_alone_def enter_def answer_def outcome_of_def ensureGapiClient_def
            loadGapiScript_def await_def remote_def return_def resume_by_cases butlast_append
          simp del: resume.simps split: sum.splits)
  next
    case nogapi: False
    with False show ?thesis
      by (auto simp add: run_alone_def enter_def answer_def outcome_of_def ensureGapiClient_def
            loadGapiScript_def await_def remote_def return_def resume_by_cases butlast_append
          simp del: resume.simps split: sum.splits)
  qed
qed

subsection \<open>The two invariants\<close>

lemma sum_list_map_update:
  "i < length xs \<Longrightarrow> sum_list (map f (xs[i := y])) + f (xs ! i) = sum_list (map f xs) + (f y :: nat)"
proof (induction xs arbitrary: i)
  case Nil
  then show ?case by simp
next
  case (Cons x xs)
  then show ?case by (cases i) auto
qed

lemma enter_cases:
  "enter w st = (p, st') \<Longrightarrow>
     gapi_loads_by p = 0 \<and> client_inits_by p = 0
     \<and> count_requests is_gapi_load (trace st') = count_requests is_gapi_load (trace st)
     \<and> count_requests is_client_init (trace st') = count_requests is_client_init (trace st)
     \<and> gapiInited st' = gapiInited st
     \<and> (p = ReturnedEarly \<longrightarrow> gapiInited st) \<and> p \<noteq> Returned"
  by (auto simp: enter_def count_requests_def is_gapi_load_def is_client_init_def split: if_splits)

lemma resume_cases:
  "resume w p r st = (p', st') \<Longrightarrow>
     has_thrown p' \<or>
     (gapi_loads_by p' + count_requests is_gapi_load (trace st)
        = gapi_loads_by p + count_requests is_gapi_load (trace st')
      \<and> client_inits_by p' + count_requests is_client_init (trace st)
        = client_inits_by p + count_requests is_client_init (trace st'))"
  by (cases "(w, p, r, st)" rule: resume.cases)
     (auto simp: count_requests_def is_gapi_load_def is_client_init_def has_thrown_def)

lemma resume_flags:
  "resume w p r st = (p', st') \<Longrightarrow>
     (has_thrown p \<longrightarrow> has_thrown p')
     \<and> (p' = ReturnedEarly \<longrightarrow> p = ReturnedEarly)
     \<and> (gapiInited st' \<longrightarrow> gapiInited st \<or> p' = Returned)
     \<and> (p = Returned \<longrightarrow> p' = Returned)"
  by (cases "(w, p, r, st)" rule: resume.cases) (auto simp: has_thrown_def)

lemma step_Invoke_accounted:
  assumes "accounted st0 pg"
  shows "accounted st0 (step w pg Invoke)"
proof -
  obtain p st' where e: "enter w (shared pg) = (p, st')" by (cases "enter w (shared pg)")
  from enter_cases [OF e] assms show ?thesis
    by (auto simp: accounted_def e)
qed

lemma step_Settle_accounted:
  assumes "accounted st0 pg"
  shows "accounted st0 (step w pg (Settle i r))"
proof (cases "i < length (tasks pg)")
  case False
  with assms show ?thesis by simp
next
  case True
  obtain p' st' where e: "resume w (tasks pg ! i) r (shared pg) = (p', st')"
    by (cases "resume w (tasks pg ! i) r (shared pg)")
  have s: "step w pg (Settle i r) = \<lparr>shared = st', tasks = (tasks pg)[i := p']\<rparr>"
    using True e by simp
  show ?thesis
  proof (cases "list_ex has_thrown (tasks pg)")
    case thrown: True
    then obtain k where k: "k < length (tasks pg)" "has_thrown (tasks pg ! k)"
      by (auto simp: list_ex_iff in_set_conv_nth)
    have "has_thrown ((tasks pg)[i := p'] ! k)"
    proof (cases "k = i")
      case True
      with k resume_flags [OF e] show ?thesis by simp
    next
      case False
      with k show ?thesis by simp
    qed
    with k(1) have "list_ex has_thrown ((tasks pg)[i := p'])"
      by (auto simp: list_ex_iff in_set_conv_nth intro!: exI [of _ k])
    then show ?thesis by (simp add: accounted_def s del: step.simps)
  next
    case quiet: False
    with assms have
      g: "count_requests is_gapi_load (trace (shared pg))
            = count_requests is_gapi_load (trace st0) + sum_list (map gapi_loads_by (tasks pg))"
      and c: "count_requests is_client_init (trace (shared pg))
            = count_requests is_client_init (trace st0) + sum_list (map client_inits_by (tasks pg))"
      by (simp_all add: accounted_def)
    show ?thesis
    proof (cases "has_thrown p'")
      case True
      then have "list_ex has_thrown ((tasks pg)[i := p'])"
        using \<open>i < length (tasks pg)\<close> by (auto simp: list_ex_iff intro: set_update_memI)
      then show ?thesis by (simp add: accounted_def s del: step.simps)
    next
      case False
      with resume_cases [OF e] have
        g': "gapi_loads_by p' + count_requests is_gapi_load (trace (shared pg))
               = gapi_loads_by (tasks pg ! i) + count_requests is_gapi_load (trace st')"
        and c': "client_inits_by p' + count_requests is_client_init (trace (shared pg))
               = client_inits_by (tasks pg ! i) + count_requests is_client_init (trace st')"
        by simp_all
      from sum_list_map_update [OF \<open>i < length (tasks pg)\<close>, of gapi_loads_by p'] g g'
      have 1: "count_requests is_gapi_load (trace st')
            = count_requests is_gapi_load (trace st0)
              + sum_list (map gapi_loads_by ((tasks pg)[i := p']))"
        by linarith
      from sum_list_map_update [OF \<open>i < length (tasks pg)\<close>, of client_inits_by p'] c c'
      have 2: "count_requests is_client_init (trace st')
            = count_requests is_client_init (trace st0)
              + sum_list (map client_inits_by ((tasks pg)[i := p']))"
        by linarith
      from 1 2 show ?thesis by (simp add: accounted_def s del: step.simps)
    qed
  qed
qed

lemma step_Invoke_none_skipped:
  assumes "none_skipped pg" and "\<not> gapiInited (shared pg)"
  shows "none_skipped (step w pg Invoke)"
proof -
  obtain p st' where e: "enter w (shared pg) = (p, st')" by (cases "enter w (shared pg)")
  from enter_cases [OF e] assms show ?thesis
    by (auto simp: none_skipped_def e)
qed

lemma step_Settle_none_skipped:
  assumes "none_skipped pg"
  shows "none_skipped (step w pg (Settle i r))"
proof (cases "i < length (tasks pg)")
  case False
  with assms show ?thesis by simp
next
  case True
  obtain p' st' where e: "resume w (tasks pg ! i) r (shared pg) = (p', st')"
    by (cases "resume w (tasks pg ! i) r (shared pg)")
  have s: "step w pg (Settle i r) = \<lparr>shared = st', tasks = (tasks pg)[i := p']\<rparr>"
    using True e by simp
  from assms True have ne: "tasks pg ! i \<noteq> ReturnedEarly"
    by (metis none_skipped_def nth_mem)
  with resume_flags [OF e] have p': "p' \<noteq> ReturnedEarly" by blast
  have 1: "ReturnedEarly \<notin> set ((tasks pg)[i := p'])"
    using assms p' by (auto simp: none_skipped_def dest!: set_update_subset_insert [THEN subsetD])
  have 2: "Returned \<in> set ((tasks pg)[i := p'])" if "gapiInited st'"
  proof (cases "p' = Returned")
    case True
    then show ?thesis using \<open>i < length (tasks pg)\<close> by (simp add: set_update_memI)
  next
    case False
    with that resume_flags [OF e] have "gapiInited (shared pg)" by blast
    with assms obtain k where k: "k < length (tasks pg)" "tasks pg ! k = Returned"
      by (auto simp: none_skipped_def in_set_conv_nth)
    with False resume_flags [OF e] have "k \<noteq> i" by auto
    with k have "(tasks pg)[i := p'] ! k = Returned" by simp
    with k(1) show ?thesis by (metis length_list_update nth_mem)
  qed
  from 1 2 show ?thesis by (simp add: none_skipped_def s del: step.simps)
qed

lemma length_tasks_Settle: "length (tasks (step w pg (Settle i r))) = length (tasks pg)"
  by (cases "resume w (tasks pg ! i) r (shared pg)") simp

lemma length_tasks_Invoke: "length (tasks (step w pg Invoke)) = Suc (length (tasks pg))"
  by (cases "enter w (shared pg)") simp

lemma run_append: "run w pg (xs @ ys) = run w (run w pg xs) ys"
  by (simp add: run_def)

lemma run_Cons: "run w pg (ev # evs) = run w (step w pg ev) evs"
  by (simp add: run_def)

lemma run_settles:
  assumes "Invoke \<notin> set evs" and "accounted st0 pg" and "none_skipped pg"
  shows "accounted st0 (run w pg evs) \<and> none_skipped (run w pg evs)
         \<and> length (tasks (run w pg evs)) = length (tasks pg)"
  using assms
proof (induction evs arbitrary: pg)
  case Nil
  then show ?case by (simp add: run_def)
next
  case (Cons ev evs)
  then obtain i r where ev: "ev = Settle i r" by (cases ev) auto
  have "accounted st0 (step w pg ev)" "none_skipped (step w pg ev)"
    using Cons.prems by (simp_all add: ev step_Settle_accounted step_Settle_none_skipped del: step.simps)
  with Cons.IH [of "step w pg ev"] Cons.prems(1)
  show ?case by (simp add: run_def ev length_tasks_Settle del: step.simps)
qed

lemma all_Returned_sums:
  assumes "set ps \<subseteq> {Returned}"
  shows "sum_list (map gapi_loads_by ps) = length ps"
    and "sum_list (map client_inits_by ps) = length ps"
    and "\<not> list_ex has_thrown ps"
  using assms by (induction ps) (auto simp: has_thrown_def)

lemma step_Settle_script_loads:
  "count_requests is_script_load (trace (shared (step w pg (Settle i r))))
     = count_requests is_script_load (trace (shared pg))"
proof (cases "i < length (tasks pg)")
  case False
  then show ?thesis by simp
next
  case True
  obtain p' st' where e: "resume w (tasks pg ! i) r (shared pg) = (p', st')"
    by (cases "resume w (tasks pg ! i) r (shared pg)")
  then have "count_requests is_script_load (trace st')
               = count_requests is_script_load (trace (shared pg))"
    by (cases "(w, tasks pg ! i, r, shared pg)" rule: resume.cases)
       (auto simp: count_requests_def is_script_load_def)
  with True e show ?thesis by simp
qed

lemma run_settles_script_loads:
  assumes "Invoke \<notin> set evs"
  shows "count_requests is_script_load (trace (shared (run w pg evs)))
           = count_requests is_script_load (trace (shared pg))"
  using assms
proof (induction evs arbitrary: pg)
  case Nil
  then show ?case by (simp add: run_def)
next
  case (Cons ev evs)
  then obtain i r where ev: "ev = Settle i r" by (cases ev) auto
  with Cons.IH [of "step w pg ev"] Cons.prems
  show ?case by (simp add: run_Cons step_Settle_script_loads del: step.simps)
qed

lemma step_Invoke_script_loads:
  "count_requests is_script_load (trace (shared pg))
     \<le> count_requests is_script_load (trace (shared (step w pg Invoke)))
   \<and> count_requests is_script_load (trace (shared (step w pg Invoke)))
     \<le> count_requests is_script_load (trace (shared pg)) + 1
   \<and> (last (tasks (step w pg Invoke)) = AwaitScriptTag \<longrightarrow>
       count_requests is_script_load (trace (shared (step w pg Invoke)))
         = count_requests is_script_load (trace (shared pg)) + 1)
   \<and> (\<not> window_gapi (shared pg) \<longrightarrow>
       last (tasks (step w pg Invoke)) \<noteq> AwaitScriptPresent)"
  by (auto simp: enter_def count_requests_def is_script_load_def)

lemma step_Settle_thrown:
  assumes "list_ex has_thrown (tasks pg)"
  shows "list_ex has_thrown (tasks (step w pg (Settle i r)))"
proof (cases "i < length (tasks pg)")
  case False
  with assms show ?thesis by simp
next
  case True
  obtain p' st' where e: "resume w (tasks pg ! i) r (shared pg) = (p', st')"
    by (cases "resume w (tasks pg ! i) r (shared pg)")
  from assms obtain k where k: "k < length (tasks pg)" "has_thrown (tasks pg ! k)"
    by (auto simp: list_ex_iff in_set_conv_nth)
  have "has_thrown ((tasks pg)[i := p'] ! k)"
  proof (cases "k = i")
    case True
    with k resume_flags [OF e] show ?thesis by simp
  next
    case False
    with k show ?thesis by simp
  qed
  with k(1) have "list_ex has_thrown ((tasks pg)[i := p'])"
    by (auto simp: list_ex_iff in_set_conv_nth intro!: exI [of _ k])
  with True e show ?thesis by simp
qed

lemma step_Invoke_thrown:
  assumes "list_ex has_thrown (tasks pg)"
  shows "list_ex has_thrown (tasks (step w pg Invoke))"
  using assms by (cases "enter w (shared pg)") simp

lemma run_thrown:
  assumes "list_ex has_thrown (tasks pg)"
  shows "list_ex has_thrown (tasks (run w pg evs))"
  using assms
proof (induction evs arbitrary: pg)
  case Nil
  then show ?case by (simp add: run_def)
next
  case (Cons ev evs)
  have "list_ex has_thrown (tasks (step w pg ev))"
    using Cons.prems by (cases ev) (simp_all add: step_Settle_thrown step_Invoke_thrown del: step.simps)
  with Cons.IH [of "step w pg ev"] show ?case by (simp add: run_Cons)
qed

lemma enter_first:
  "tasks (step w \<lparr>shared = st0, tasks = []\<rparr> Invoke) = [fst (enter w st0)]"
  by (cases "enter w st0") simp

lemma enter_pc:
  "fst (enter w st) \<in> {ReturnedEarly, AwaitScriptPresent, AwaitScriptTag} \<or> has_thrown (fst (enter w st))"
  by (simp add: enter_def has_thrown_def)

subsection \<open>Two invocations, the second before the first has returned\<close>

lemma both_at_once_run:
  "run demo_world \<lparr>shared = fresh, tasks = []\<rparr> both_at_once
     = \<lparr>shared = fresh\<lparr>gapiInited := True, window_gapi := True,
                 trace := [LoadScript ''https://apis.google.com/js/api.js'',
                           LoadScript ''https://apis.google.com/js/api.js'',
                           GapiLoad ''client'', GapiLoad ''client'',
                           ClientInit (Some ''key'') DISCOVERY_DOCS,
                           ClientInit (Some ''key'') DISCOVERY_DOCS]\<rparr>,
        tasks = [Returned, Returned]\<rparr>"
  by (simp add: run_def both_at_once_def ok_settle_def enter_def unset_def fresh_def demo_world_def)

text \<open>
  Claim C7, as the code has it. The only guard of \<open>ensureGapiClient\<close> is
  \<open>gapiInited\<close>, which is set when an invocation ends: an invocation made after one
  has returned does nothing. Take any interleaving of two invocations on a client that is
  not initialised, the second made before the first has returned, in which both end
  without throwing: neither took the early return, two \<open>gapi.load\<close> calls and two
  \<open>gapi.client.init\<close> calls were made, one by each, and at most two script tags were
  appended, at least one when \<open>window.gapi\<close> was not defined at the start.
\<close>
theorem overlapping_invocations:
  assumes "\<not> gapiInited st0"
    and "Invoke \<notin> set evs1" and "Invoke \<notin> set evs2"
    and "Returned \<notin> set (tasks (run w \<lparr>shared = st0, tasks = []\<rparr> (Invoke # evs1)))"
    and "set (tasks (run w \<lparr>shared = st0, tasks = []\<rparr> (Invoke # evs1 @ Invoke # evs2)))
           \<subseteq> {Returned, ReturnedEarly}"
  shows "tasks (run w \<lparr>shared = st0, tasks = []\<rparr> (Invoke # evs1 @ Invoke # evs2))
           = [Returned, Returned]
    \<and> count_requests is_client_init
         (trace (shared (run w \<lparr>shared = st0, tasks = []\<rparr> (Invoke # evs1 @ Invoke # evs2))))
        = count_requests is_client_init (trace st0) + 2
    \<and> count_requests is_gapi_load
         (trace (shared (run w \<lparr>shared = st0, tasks = []\<rparr> (Invoke # evs1 @ Invoke # evs2))))
        = count_requests is_gapi_load (trace st0) + 2
    \<and> count_requests is_script_load
         (trace (shared (run w \<lparr>shared = st0, tasks = []\<rparr> (Invoke # evs1 @ Invoke # evs2))))
        \<le> count_requests is_script_load (trace st0) + 2
    \<and> (\<not> window_gapi st0 \<longrightarrow>
         count_requests is_script_load (trace st0) + 1
           \<le> count_requests is_script_load
               (trace (shared (run w \<lparr>shared = st0, tasks = []\<rparr> (Invoke # evs1 @ Invoke # evs2)))))
    \<and> (\<forall>st st1. ensureGapiClient w st = (Inr (), st1) \<longrightarrow>
                  ensureGapiClient w st1 = (Inr (), st1))"
proof -
  define pg0 :: "'a page" where "pg0 = \<lparr>shared = st0, tasks = []\<rparr>"
  define pg1 where "pg1 = step w pg0 Invoke"
  define pg2 where "pg2 = run w pg1 evs1"
  define pg3 where "pg3 = step w pg2 Invoke"
  define pg4 where "pg4 = run w pg3 evs2"
  have r2: "run w pg0 (Invoke # evs1) = pg2"
    by (simp add: pg2_def pg1_def run_Cons)
  have r4: "run w pg0 (Invoke # evs1 @ Invoke # evs2) = pg4"
    by (simp add: pg4_def pg3_def pg2_def pg1_def run_Cons run_append del: step.simps)
  have r41: "pg4 = run w pg1 (evs1 @ Invoke # evs2)"
    by (simp add: pg4_def pg3_def pg2_def run_Cons run_append del: step.simps)
  have a0: "accounted st0 pg0" and n0: "none_skipped pg0"
    using assms(1) by (simp_all add: pg0_def accounted_def none_skipped_def)
  have a1: "accounted st0 pg1" and n1: "none_skipped pg1"
    using a0 n0 assms(1)
    by (simp_all add: pg1_def step_Invoke_accounted step_Invoke_none_skipped pg0_def del: step.simps)
  have l1: "length (tasks pg1) = 1"
    by (simp add: pg1_def length_tasks_Invoke pg0_def del: step.simps)
  from run_settles [OF assms(2) a1 n1, of w]
  have a2: "accounted st0 pg2" and n2: "none_skipped pg2" and l2: "length (tasks pg2) = 1"
    by (simp_all add: pg2_def l1)
  from assms(4) have "Returned \<notin> set (tasks pg2)" by (simp add: r2 pg0_def [symmetric])
  with n2 have g2: "\<not> gapiInited (shared pg2)" by (auto simp: none_skipped_def)
  have a3: "accounted st0 pg3" and n3: "none_skipped pg3"
    using a2 n2 g2
    by (simp_all add: pg3_def step_Invoke_accounted step_Invoke_none_skipped del: step.simps)
  have l3: "length (tasks pg3) = 2"
    by (simp add: pg3_def length_tasks_Invoke l2 del: step.simps)
  from run_settles [OF assms(3) a3 n3, of w]
  have a4: "accounted st0 pg4" and n4: "none_skipped pg4" and l4: "length (tasks pg4) = 2"
    by (simp_all add: pg4_def l3)
  from assms(5) have "set (tasks pg4) \<subseteq> {Returned, ReturnedEarly}"
    by (simp add: r4 pg0_def [symmetric])
  with n4 have all: "set (tasks pg4) \<subseteq> {Returned}" by (auto simp: none_skipped_def)
  from l4 all have t: "tasks pg4 = [Returned, Returned]"
    by (cases "tasks pg4"; cases "tl (tasks pg4)") auto
  from a4 all_Returned_sums [OF all] l4
  have c: "count_requests is_client_init (trace (shared pg4))
          = count_requests is_client_init (trace st0) + 2"
    and g: "count_requests is_gapi_load (trace (shared pg4))
          = count_requests is_gapi_load (trace st0) + 2"
    by (simp_all add: accounted_def)
  have s0: "count_requests is_script_load (trace (shared pg0)) = count_requests is_script_load (trace st0)"
    by (simp add: pg0_def)
  have s2: "count_requests is_script_load (trace (shared pg2))
              = count_requests is_script_load (trace (shared pg1))"
    by (simp add: pg2_def run_settles_script_loads [OF assms(2)])
  have s4: "count_requests is_script_load (trace (shared pg4))
              = count_requests is_script_load (trace (shared pg3))"
    by (simp add: pg4_def run_settles_script_loads [OF assms(3)])
  from step_Invoke_script_loads [of pg0 w] step_Invoke_script_loads [of pg2 w] s0 s2 s4
  have up: "count_requests is_script_load (trace (shared pg4))
              \<le> count_requests is_script_load (trace st0) + 2"
    and mono: "count_requests is_script_load (trace (shared pg1))
              \<le> count_requests is_script_load (trace (shared pg4))"
    unfolding pg1_def [symmetric] pg3_def [symmetric] by linarith+
  have low: "count_requests is_script_load (trace st0) + 1
               \<le> count_requests is_script_load (trace (shared pg4))"
    if nw: "\<not> window_gapi st0"
  proof -
    have t1: "tasks pg1 = [fst (enter w st0)]"
      unfolding pg1_def pg0_def by (rule enter_first)
    have "\<not> has_thrown (fst (enter w st0))"
    proof
      assume "has_thrown (fst (enter w st0))"
      then have "list_ex has_thrown (tasks pg1)" by (simp add: t1)
      then have "list_ex has_thrown (tasks pg4)" unfolding r41 by (rule run_thrown)
      with all_Returned_sums(3) [OF all] show False by simp
    qed
    moreover have "fst (enter w st0) \<noteq> ReturnedEarly"
      using n1 by (auto simp: none_skipped_def t1)
    moreover have "fst (enter w st0) \<noteq> AwaitScriptPresent"
      using step_Invoke_script_loads [of pg0 w] nw
      unfolding pg1_def [symmetric] by (simp add: t1 pg0_def)
    ultimately have "fst (enter w st0) = AwaitScriptTag"
      using enter_pc [of w st0] by auto
    with step_Invoke_script_loads [of pg0 w] s0
    have "count_requests is_script_load (trace (shared pg1))
            = count_requests is_script_load (trace st0) + 1"
      unfolding pg1_def [symmetric] by (simp add: t1)
    with mono show ?thesis by simp
  qed
  have memo: "ensureGapiClient w st1 = (Inr (), st1)" if "ensureGapiClient w st = (Inr (), st1)"
    for st st1
    using that by (simp add: ensureGapiClient_ok ensureGapiClient_ready)
  from t c g up low memo show ?thesis by (simp add: r4 pg0_def [symmetric])
qed

theorem overlapping_invocations_witness:
  "\<not> gapiInited fresh
   \<and> Returned \<notin> set (tasks (run demo_world \<lparr>shared = fresh, tasks = []\<rparr> [Invoke]))
   \<and> set (tasks (run demo_world \<lparr>shared = fresh, tasks = []\<rparr> both_at_once))
        \<subseteq> {Returned, ReturnedEarly}
   \<and> count_requests is_client_init (trace fresh) = 0
   \<and> count_requests is_client_init
        (trace (shared (run demo_world \<lparr>shared = fresh, tasks = []\<rparr> both_at_once))) = 2"
proof -
  define settles :: "int event list" where
    "settles = [Settle 0 ok_settle, Settle 1 ok_settle, Settle 0 ok_settle,
                Settle 1 ok_settle, Settle 0 ok_settle, Settle 1 ok_settle]"
  have b: "Invoke # [] @ Invoke # settles = both_at_once"
    by (simp add: both_at_once_def settles_def)
  have h1: "\<not> gapiInited fresh" by (simp add: fresh_def)
  have h2: "Invoke \<notin> set ([] :: int event list)" by simp
  have h3: "Invoke \<notin> set settles" by (simp add: settles_def)
  have h4: "Returned \<notin> set (tasks (run demo_world \<lparr>shared = fresh, tasks = []\<rparr> (Invoke # [])))"
    by (simp add: run_def enter_def unset_def fresh_def demo_world_def)
  have h5: "set (tasks (run demo_world \<lparr>shared = fresh, tasks = []\<rparr> (Invoke # [] @ Invoke # settles)))
              \<subseteq> {Returned, ReturnedEarly}"
    unfolding b by (simp add: both_at_once_run)
  have z: "count_requests is_client_init (trace fresh) = 0"
    by (simp add: count_requests_def fresh_def)
  from overlapping_invocations [OF h1 h2 h3 h4 h5, unfolded b]
  have c: "count_requests is_client_init
        (trace (shared (run demo_world \<lparr>shared = fresh, tasks = []\<rparr> both_at_once))) = 2"
    by (simp add: z)
  from h1 h4 h5 [unfolded b] z c show ?thesis by simp
qed

theorem overlapping_invocations_counterexample:
  "tasks (run demo_world \<lparr>shared = fresh, tasks = []\<rparr> both_at_once) = [Returned, Returned]
   \<and> count_requests is_script_load
        (trace (shared (run demo_world \<lparr>shared = fresh, tasks = []\<rparr> both_at_once))) = 2
   \<and> count_requests is_client_init
        (trace (shared (run demo_world \<lparr>shared = fresh, tasks = []\<rparr> both_at_once))) = 2"
  by (simp add: both_at_once_run count_requests_def is_script_load_def is_client_init_def)

end
